theory Spec2Isabelle
  imports Main "HOL-Library.Word"
begin

section \<open>Data model\<close>

subsection \<open>Nodes, identifiers, errors\<close>

text \<open>
  A node of the binary XML-like tree (package \<open>binary\<close>): a tag, attributes and a content
  that is absent, raw bytes or a sequence of child nodes. Go's \<open>map[string]interface{}\<close>
  of attributes is an association list read with \<open>map_of\<close>; attribute values are the
  typed values the codec produces.
\<close>

datatype jid = ServerJID | UserJID string

datatype attr_value = AString string | AInt int | AJID jid

datatype 'n content = CNil | CBytes "8 word list" | CNodes "'n list"

datatype Node = Node (Tag: string) (Attrs: "(string \<times> attr_value) list") (Content: "Node content")

text \<open>Go errors. \<open>Wrapped msg e\<close> is \<open>fmt.Errorf(msg + ": %w", e)\<close>.\<close>

datatype error =
    ErrAlreadyConnected
  | ErrNotConnected
  | ErrNotLoggedIn
  | ErrIQError
  | ErrIQTimedOut
  | ErrIQDisconnected
  | ErrProfilePictureUnauthorized
  | Wrapped string error
  | OtherError string

text \<open>\<open>errors.Is\<close>: the error itself or anything it wraps.\<close>

fun errors_Is :: "error \<Rightarrow> error \<Rightarrow> bool" where
  "errors_Is (Wrapped msg e) target = (Wrapped msg e = target \<or> errors_Is e target)"
| "errors_Is e target = (e = target)"

text \<open>A Go call either returns or panics.\<close>

datatype 'a go_result = Returned 'a | Panicked string

subsection \<open>Events, tasks and observable effects\<close>

type_synonym sockid = nat
type_synonym fn_ref = nat
type_synonym chan_ref = nat

datatype event =
    Disconnected
  | Connected
  | LoggedOut bool
  | StreamError string Node
  | ConnectFailure string Node
  | QRScannedWithoutMultidevice
  | AppEvent string

text \<open>The tag handlers bound in \<open>NewClient\<close> (method values of the client).\<close>

datatype nodeHandler =
    HandleEncryptedMessage
  | HandleReceipt
  | HandleChatState
  | HandleNotification
  | HandleConnectSuccess
  | HandleConnectFailure
  | HandleStreamError
  | HandleIQ
  | HandleIB

text \<open>
  Goroutines started with \<open>go\<close>. The two loops started by \<open>Connect\<close> are bound to the
  context of the socket then in the slot.
\<close>

datatype task =
    GoDispatchEvent event
  | GoAutoReconnect
  | GoReconnect515
  | GoBlockingPush Node
  | GoKeepAliveLoop "sockid option"
  | GoHandlerQueueLoop "sockid option"
  | GoPostConnect

datatype logger = MainLog | RecvLog | SendLog

datatype level = LDebug | LInfo | LWarn | LError

record infoQuery =
  Namespace :: string
  Type :: string
  To :: jid
  QContent :: "Node list"

text \<open>
  What an operation does besides changing the client: log lines (logger, level, format
  string), calls on a socket, goroutines started, calls into the device store, sleeps,
  sends on a waiter's channel, calls of application callbacks and of tag handlers.
\<close>

datatype effect =
    Logged logger level string
  | SocketStop sockid bool
  | FrameSocketClose
  | Spawn task
  | StoreDelete
  | Slept "64 word"
  | SendIQ infoQuery
  | ChanSend chan_ref "Node option"
  | CallEventHandler fn_ref event
  | CallNodeHandler nodeHandler Node

subsection \<open>The client\<close>

record Device =
  ID :: "jid option"

record wrappedEventHandler =
  fn :: "fn_ref option"
  id' :: "32 word"

text \<open>
  The fields of \<open>Client\<close> that the operations below read or write. \<open>socket\<close> is the
  identity of the active noise socket (\<open>None\<close> is \<open>nil\<close>); \<open>AutoReconnectErrors\<close> is a Go
  \<open>int\<close>, taken as 64 bits wide and read with \<open>sint\<close>; \<open>responseWaiters\<close> maps request
  ids to the sending ends of the waiters' channels; \<open>handlerQueue\<close> is the content of the
  buffered channel, oldest first. Loggers and locks are not state of the model.
\<close>

record Client =
  Store :: Device
  socket :: "sockid option"
  expectedDisconnectVal :: "32 word"
  EnableAutoReconnect :: bool
  LastSuccessfulConnect :: int
  AutoReconnectErrors :: "64 word"
  IsLoggedIn :: bool
  responseWaiters :: "(string \<times> chan_ref) list"
  nodeHandlers :: "string \<rightharpoonup> nodeHandler"
  handlerQueue :: "Node list"
  eventHandlers :: "wrappedEventHandler list"
  uniqueID :: string
  idCounter :: "64 word"

definition handlerQueueSize :: nat where
  "handlerQueueSize = 2048"

section \<open>Event bus\<close>

text \<open>
  \<open>AddEventHandler\<close>: the process-wide counter \<open>nextHandlerID\<close> (a \<open>uint32\<close>, passed and
  returned here) is incremented atomically and the new value is the handler's id.
\<close>

definition AddEventHandler ::
  "fn_ref option \<Rightarrow> 32 word \<Rightarrow> Client \<Rightarrow> 32 word \<times> Client \<times> 32 word" where
  "AddEventHandler handler nextHandlerID c =
     (let nextID = nextHandlerID + 1
      in (nextID,
          c\<lparr>eventHandlers := eventHandlers c @ [\<lparr>fn = handler, id' = nextID\<rparr>]\<rparr>,
          nextID))"

text \<open>The \<open>for index := range\<close> search of \<open>RemoveEventHandler\<close>, from index \<open>k\<close>.\<close>

fun find_handler :: "32 word \<Rightarrow> wrappedEventHandler list \<Rightarrow> nat \<Rightarrow> nat option" where
  "find_handler i [] k = None"
| "find_handler i (h # hs) k = (if id' h = i then Some k else find_handler i hs (Suc k))"

text \<open>\<open>copy(hs[index:], hs[index+1:])\<close>: the tail moves one place left, the last slot stays.\<close>

definition copy_down :: "nat \<Rightarrow> 'a list \<Rightarrow> 'a list" where
  "copy_down index hs = take index hs @ drop (index + 1) hs @ drop (length hs - 1) hs"

definition RemoveEventHandler :: "32 word \<Rightarrow> Client \<Rightarrow> Client \<times> bool" where
  "RemoveEventHandler i c =
     (let hs = eventHandlers c
      in case find_handler i hs 0 of
           None \<Rightarrow> (c, False)
         | Some index \<Rightarrow>
             if index = 0
             then (c\<lparr>eventHandlers := drop 1 (hs[0 := (hs ! 0)\<lparr>fn := None\<rparr>])\<rparr>, True)
             else
               let hs1 = (if index < length hs - 1 then copy_down index hs else hs);
                   hs2 = hs1[length hs1 - 1 := (hs1 ! (length hs1 - 1))\<lparr>fn := None\<rparr>]
               in (c\<lparr>eventHandlers := take (length hs2 - 1) hs2\<rparr>, True))"

definition RemoveEventHandlers :: "Client \<Rightarrow> Client" where
  "RemoveEventHandlers c = c\<lparr>eventHandlers := []\<rparr>"

text \<open>
  The loop of \<open>dispatchEvent\<close>. An application callback is known by its reference;
  \<open>panics f evt\<close> is the value it panics with on this event, if it does. Calling a \<open>nil\<close>
  callback panics before any call is made. The result is the calls made, in order, and the
  panic that ended the loop, if any.
\<close>

fun run_handlers ::
  "(fn_ref \<Rightarrow> event \<Rightarrow> string option) \<Rightarrow> event \<Rightarrow> wrappedEventHandler list
     \<Rightarrow> effect list \<times> string option" where
  "run_handlers panics evt [] = ([], None)"
| "run_handlers panics evt (h # hs) =
     (case fn h of
        None \<Rightarrow> ([], Some ''invalid memory address or nil pointer dereference'')
      | Some f \<Rightarrow>
          (case panics f evt of
             Some p \<Rightarrow> ([CallEventHandler f evt], Some p)
           | None \<Rightarrow>
               (let (es, r) = run_handlers panics evt hs
                in (CallEventHandler f evt # es, r))))"

text \<open>
  \<open>dispatchEvent\<close>: the deferred function recovers whatever panic left the loop and logs
  it (the arguments of the format are the event, the recovered value and
  \<open>debug.Stack()\<close>); the second component is the panic that reaches the caller.
\<close>

definition dispatchEvent ::
  "(fn_ref \<Rightarrow> event \<Rightarrow> string option) \<Rightarrow> event \<Rightarrow> Client \<Rightarrow> effect list \<times> string option" where
  "dispatchEvent panics evt c =
     (let (es, r) = run_handlers panics evt (eventHandlers c)
      in case r of
           None \<Rightarrow> (es, None)
         | Some err \<Rightarrow>
             (es @ [Logged MainLog LError ''Event handler panicked while handling a %T: %v %s''],
              None))"

section \<open>Construction and request ids\<close>

text \<open>\<open>%d\<close> of \<open>fmt.Sprintf\<close> on an unsigned value: decimal digits, no leading zero.\<close>

definition digit :: "nat \<Rightarrow> char" where
  "digit n = ''0123456789'' ! n"

function decimal :: "nat \<Rightarrow> string" where
  "decimal n = (if n < 10 then [digit n] else decimal (n div 10) @ [digit (n mod 10)])"
  by pat_completeness auto
termination
  by (relation "measure (\<lambda>n. n)") auto

declare decimal.simps [simp del]

text \<open>
  \<open>NewClient\<close>. The two bytes are what \<open>rand.Read\<close> left in \<open>randomBytes\<close>. Fields that
  the composite literal does not name have Go's zero value.
\<close>

definition NewClient :: "Device \<Rightarrow> 8 word \<Rightarrow> 8 word \<Rightarrow> Client" where
  "NewClient deviceStore b0 b1 =
     \<lparr>Store = deviceStore,
      socket = None,
      expectedDisconnectVal = 0,
      EnableAutoReconnect = True,
      LastSuccessfulConnect = 0,
      AutoReconnectErrors = 0,
      IsLoggedIn = False,
      responseWaiters = [],
      nodeHandlers =
        [''message'' \<mapsto> HandleEncryptedMessage,
         ''receipt'' \<mapsto> HandleReceipt,
         ''chatstate'' \<mapsto> HandleChatState,
         ''notification'' \<mapsto> HandleNotification,
         ''success'' \<mapsto> HandleConnectSuccess,
         ''failure'' \<mapsto> HandleConnectFailure,
         ''stream:error'' \<mapsto> HandleStreamError,
         ''iq'' \<mapsto> HandleIQ,
         ''ib'' \<mapsto> HandleIB],
      handlerQueue = [],
      eventHandlers = [],
      uniqueID = decimal (unat b0) @ ''.'' @ decimal (unat b1) @ ''-'',
      idCounter = 0\<rparr>"

text \<open>
  Modelled from the spec: \<open>generateRequestID\<close> is not among the sources at hand. The spec
  gives a request id as \<open><unique-prefix><++counter>\<close>: the 64-bit counter is incremented
  and its new value, in decimal, follows the prefix.
\<close>

definition generateRequestID :: "Client \<Rightarrow> Client \<times> string" where
  "generateRequestID c =
     (let n = idCounter c + 1
      in (c\<lparr>idCounter := n\<rparr>, uniqueID c @ decimal (unat n)))"

text \<open>The ids of \<open>n\<close> successive calls.\<close>

fun request_ids :: "nat \<Rightarrow> Client \<Rightarrow> string list" where
  "request_ids 0 c = []"
| "request_ids (Suc n) c = (let (c', r) = generateRequestID c in r # request_ids n c')"

text \<open>
  The prefix in the spec's words, for comparison with \<open>NewClient\<close>: the two bytes,
  hex-encoded as \<open>hex.EncodeToString\<close> does.
\<close>

definition hex_digit :: "nat \<Rightarrow> char" where
  "hex_digit n = ''0123456789abcdef'' ! n"

definition hex_encode :: "8 word list \<Rightarrow> string" where
  "hex_encode bs = concat (map (\<lambda>b. [hex_digit (unat b div 16), hex_digit (unat b mod 16)]) bs)"

definition spec_unique_prefix :: "8 word \<Rightarrow> 8 word \<Rightarrow> string" where
  "spec_unique_prefix b0 b1 = hex_encode [b0, b1]"

section \<open>Lifecycle\<close>

definition expectDisconnect :: "Client \<Rightarrow> Client" where
  "expectDisconnect c = c\<lparr>expectedDisconnectVal := 1\<rparr>"

definition resetExpectedDisconnect :: "Client \<Rightarrow> Client" where
  "resetExpectedDisconnect c = c\<lparr>expectedDisconnectVal := 0\<rparr>"

definition isExpectedDisconnect :: "Client \<Rightarrow> bool" where
  "isExpectedDisconnect c = (expectedDisconnectVal c = 1)"

definition unlockedDisconnect :: "Client \<Rightarrow> Client \<times> effect list" where
  "unlockedDisconnect c =
     (case socket c of
        Some s \<Rightarrow> (c\<lparr>socket := None\<rparr>, [SocketStop s True])
      | None \<Rightarrow> (c, []))"

definition Disconnect :: "Client \<Rightarrow> Client \<times> effect list" where
  "Disconnect c = (if socket c = None then (c, []) else unlockedDisconnect c)"

text \<open>
  Modelled from the spec: \<open>clearResponseWaiters\<close> is not among the sources at hand. The
  spec has every waiter released with a disconnect error (a \<open>nil\<close> sent on its channel
  here) and the waiter map left empty.
\<close>

definition clearResponseWaiters :: "Client \<Rightarrow> Client \<times> effect list" where
  "clearResponseWaiters c =
     (c\<lparr>responseWaiters := []\<rparr>, map (\<lambda>(k, w). ChanSend w None) (responseWaiters c))"

definition onDisconnect :: "sockid \<Rightarrow> bool \<Rightarrow> Client \<Rightarrow> Client \<times> effect list" where
  "onDisconnect ns remote c =
     (let e0 = [SocketStop ns False]
      in if socket c = Some ns
         then
           let c1 = c\<lparr>socket := None\<rparr>;
               (c2, e1) = clearResponseWaiters c1
           in if \<not> isExpectedDisconnect c2 \<and> remote
              then (c2, e0 @ e1 @
                     [Logged MainLog LDebug ''Emitting Disconnected event'',
                      Spawn (GoDispatchEvent Disconnected),
                      Spawn GoAutoReconnect])
              else if remote
              then (c2, e0 @ e1 @
                     [Logged MainLog LDebug
                        ''OnDisconnect() called, but it was expected, so not emitting event''])
              else (c2, e0 @ e1 @
                     [Logged MainLog LDebug ''OnDisconnect() called after manual disconnection''])
         else (c, e0 @ [Logged MainLog LDebug ''Ignoring OnDisconnect on different socket'']))"

text \<open>
  What the outside world answers during one \<open>Connect\<close>: whether the socket in the slot
  still reports connected, the result of the frame socket's \<open>Connect\<close>, and the result of
  the noise handshake (the new noise socket on success).
\<close>

record conn_env =
  old_IsConnected :: bool
  fs_Connect :: "error option"
  handshake :: "error + sockid"

text \<open>
  Modelled from the spec: \<open>doHandshake\<close> is not among the sources at hand. On success the
  frame transport is wrapped and becomes the session's socket; on failure the session is
  unchanged and the cause is returned.
\<close>

definition doHandshake :: "error + sockid \<Rightarrow> Client \<Rightarrow> Client \<times> error option" where
  "doHandshake h c = (case h of Inl e \<Rightarrow> (c, Some e) | Inr ns \<Rightarrow> (c\<lparr>socket := Some ns\<rparr>, None))"

definition Connect :: "conn_env \<Rightarrow> Client \<Rightarrow> Client \<times> error option \<times> effect list" where
  "Connect env c =
     (if socket c \<noteq> None \<and> old_IsConnected env
      then (c, Some ErrAlreadyConnected, [])
      else
        let (c1, e1) = (if socket c \<noteq> None then unlockedDisconnect c else (c, []));
            c2 = resetExpectedDisconnect c1
        in case fs_Connect env of
             Some err \<Rightarrow> (c2, Some err, e1 @ [FrameSocketClose])
           | None \<Rightarrow>
               (case doHandshake (handshake env) c2 of
                  (c3, Some err) \<Rightarrow>
                    (c3, Some (Wrapped ''noise handshake failed'' err), e1 @ [FrameSocketClose])
                | (c3, None) \<Rightarrow>
                    (c3, None,
                     e1 @ [Spawn (GoKeepAliveLoop (socket c3)), Spawn (GoHandlerQueueLoop (socket c3))])))"

text \<open>
  \<open>autoReconnect\<close>. The loop runs against the answers the outside world gives to the
  successive \<open>Connect\<close> calls; \<open>None\<close> means that the loop has not returned when these
  answers are used up. \<open>time.Duration(n) * 2 * time.Second\<close> is a 64-bit product in
  nanoseconds.
\<close>

definition autoReconnectDelay :: "64 word \<Rightarrow> 64 word" where
  "autoReconnectDelay n = n * 2 * 1000000000"

fun autoReconnect_loop :: "conn_env list \<Rightarrow> Client \<Rightarrow> (Client \<times> effect list) option" where
  "autoReconnect_loop [] c = None"
| "autoReconnect_loop (env # envs) c =
     (let c1 = c\<lparr>AutoReconnectErrors := AutoReconnectErrors c + 1\<rparr>;
          e1 = [Logged MainLog LDebug ''Automatically reconnecting after %v'',
                Slept (autoReconnectDelay (AutoReconnectErrors c1))];
          (c2, err, e2) = Connect env c1
      in case err of
           None \<Rightarrow> Some (c2, e1 @ e2)
         | Some e \<Rightarrow>
             if errors_Is e ErrAlreadyConnected
             then Some (c2, e1 @ e2 @
                    [Logged MainLog LDebug
                       ''Connect() said we're already connected after autoreconnect sleep''])
             else
               (case autoReconnect_loop envs c2 of
                  None \<Rightarrow> None
                | Some (c3, e3) \<Rightarrow>
                    Some (c3, e1 @ e2 @
                      [Logged MainLog LError ''Error reconnecting after autoreconnect sleep: %v'']
                      @ e3)))"

definition autoReconnect :: "conn_env list \<Rightarrow> Client \<Rightarrow> (Client \<times> effect list) option" where
  "autoReconnect envs c =
     (if \<not> EnableAutoReconnect c \<or> ID (Store c) = None
      then Some (c, [])
      else autoReconnect_loop envs c)"

text \<open>
  Modelled from the spec: \<open>Device.Delete\<close> is not among the sources at hand. The spec has
  it drop all session state or return an error; a successful call leaves no identity.
\<close>

definition Store_Delete :: "error option \<Rightarrow> Device \<Rightarrow> Device \<times> error option" where
  "Store_Delete outcome d = (case outcome of None \<Rightarrow> (d\<lparr>ID := None\<rparr>, None) | Some e \<Rightarrow> (d, Some e))"

text \<open>
  \<open>Logout\<close>. \<open>sendIQ\<close> is not among the sources at hand: the answer it returns to a query is
  a parameter, and what it does to the session on its own is outside \<open>Logout\<close>'s body.
\<close>

definition logout_query :: "jid \<Rightarrow> infoQuery" where
  "logout_query j =
     \<lparr>Namespace = ''md'', Type = ''set'', To = ServerJID,
      QContent = [Node ''remove-companion-device''
                    [(''jid'', AJID j), (''reason'', AString ''user_initiated'')] CNil]\<rparr>"

definition Logout ::
  "(infoQuery \<Rightarrow> Node option \<times> error option) \<Rightarrow> error option \<Rightarrow> Client
     \<Rightarrow> Client \<times> error option \<times> effect list" where
  "Logout sendIQ del c =
     (case ID (Store c) of
        None \<Rightarrow> (c, Some ErrNotLoggedIn, [])
      | Some j \<Rightarrow>
          (case snd (sendIQ (logout_query j)) of
             Some err \<Rightarrow>
               (c, Some (Wrapped ''error sending logout request'' err), [SendIQ (logout_query j)])
           | None \<Rightarrow>
              (let (c1, e1) = Disconnect c;
                   (d, derr) = Store_Delete del (Store c1);
                   c2 = c1\<lparr>Store := d\<rparr>;
                   es = [SendIQ (logout_query j)] @ e1 @ [StoreDelete]
               in (case derr of
                     Some err \<Rightarrow> (c2, Some (Wrapped ''error deleting data from store'' err), es)
                   | None \<Rightarrow> (c2, None, es)))))"

section \<open>Node helpers and tag handlers\<close>

text \<open>
  The accessors of package \<open>binary\<close> that the handlers use. The node returned when no
  child has the tag is taken to be the zero \<open>Node\<close>; nothing below depends on that case.
  \<open>ag_String\<close> is \<open>AttrGetter().String\<close>: the string value, and the key as an error when
  the attribute is missing or not a string.
\<close>

definition GetChildren :: "Node \<Rightarrow> Node list" where
  "GetChildren n = (case Content n of CNodes cs \<Rightarrow> cs | _ \<Rightarrow> [])"

definition GetOptionalChildByTag :: "Node \<Rightarrow> string \<Rightarrow> Node \<times> bool" where
  "GetOptionalChildByTag n tag =
     (case find (\<lambda>ch. Tag ch = tag) (GetChildren n) of
        Some ch \<Rightarrow> (ch, True)
      | None \<Rightarrow> (Node [] [] CNil, False))"

definition GetChildByTag :: "Node \<Rightarrow> string \<Rightarrow> Node" where
  "GetChildByTag n tag = fst (GetOptionalChildByTag n tag)"

definition ag_String :: "Node \<Rightarrow> string \<Rightarrow> string \<times> string list" where
  "ag_String n key =
     (case map_of (Attrs n) key of
        Some (AString s) \<Rightarrow> (s, [])
      | _ \<Rightarrow> ([], [key]))"

text \<open>\<open>code, _ := node.Attrs["code"].(string)\<close>: the empty string unless a string is there.\<close>

definition attr_string_or_empty :: "Node \<Rightarrow> string \<Rightarrow> string" where
  "attr_string_or_empty n key = (case map_of (Attrs n) key of Some (AString s) \<Rightarrow> s | _ \<Rightarrow> [])"

text \<open>\<open>del\<close> is the result of \<open>Store.Delete()\<close> when the handler calls it.\<close>

definition handleStreamError :: "error option \<Rightarrow> Node \<Rightarrow> Client \<Rightarrow> Client \<times> effect list" where
  "handleStreamError del node c =
     (let c1 = c\<lparr>IsLoggedIn := False\<rparr>;
          code = attr_string_or_empty node ''code''
      in if code = ''515''
         then (c1, [Logged MainLog LInfo ''Got 515 code, reconnecting...'', Spawn GoReconnect515])
         else if code = ''401''
         then
           let (conflict, ok) = GetOptionalChildByTag node ''conflict'';
               conflictType = fst (ag_String conflict ''type'')
           in if ok \<and> conflictType = ''device_removed''
              then
                let c2 = expectDisconnect c1;
                    (d, derr) = Store_Delete del (Store c2)
                in (c2\<lparr>Store := d\<rparr>,
                    [Logged MainLog LInfo
                       ''Got device removed stream error, sending LoggedOut event and deleting session'',
                     Spawn (GoDispatchEvent (LoggedOut False)),
                     StoreDelete]
                    @ (case derr of
                         Some err \<Rightarrow>
                           [Logged MainLog LWarn
                              ''Failed to delete store after device_removed error: %v'']
                       | None \<Rightarrow> []))
              else (c1, [Logged MainLog LError ''Unknown stream error code 401: %s'',
                         Spawn (GoDispatchEvent (StreamError code node))])
         else (c1, [Logged MainLog LError ''Unknown stream error: %s'',
                    Spawn (GoDispatchEvent (StreamError code node))]))"

text \<open>The goroutine started on code 515: \<open>Disconnect\<close>, then \<open>Connect\<close>.\<close>

definition reconnect515 :: "conn_env \<Rightarrow> Client \<Rightarrow> Client \<times> effect list" where
  "reconnect515 env c =
     (let (c1, e1) = Disconnect c;
          (c2, err, e2) = Connect env c1
      in (c2, e1 @ e2 @
            (case err of
               Some e \<Rightarrow> [Logged MainLog LError ''Failed to reconnect after 515 code:'']
             | None \<Rightarrow> [])))"

definition handleIB :: "Node \<Rightarrow> Client \<Rightarrow> Client \<times> effect list" where
  "handleIB node c =
     (let children = GetChildren node
      in if length children = 1 \<and> Tag (children ! 0) = ''downgrade_webclient''
         then (c, [Spawn (GoDispatchEvent QRScannedWithoutMultidevice)])
         else (c, []))"

definition handleConnectFailure :: "error option \<Rightarrow> Node \<Rightarrow> Client \<Rightarrow> Client \<times> effect list" where
  "handleConnectFailure del node c =
     (let reason = fst (ag_String node ''reason'')
      in if reason = ''401''
         then
           let c1 = expectDisconnect c;
               (d, derr) = Store_Delete del (Store c1)
           in (c1\<lparr>Store := d\<rparr>,
               [Logged MainLog LInfo
                  ''Got 401 connect failure, sending LoggedOut event and deleting session'',
                Spawn (GoDispatchEvent (LoggedOut True)),
                StoreDelete]
               @ (case derr of
                    Some err \<Rightarrow> [Logged MainLog LWarn ''Failed to delete store after 401 failure: %v'']
                  | None \<Rightarrow> []))
         else (c, [Logged MainLog LWarn ''Unknown connect failure: %s'',
                   Spawn (GoDispatchEvent (ConnectFailure reason node))]))"

text \<open>\<open>now\<close> is \<open>time.Now()\<close>. The goroutine's body (prekeys, passive IQ) is not modelled.\<close>

definition handleConnectSuccess :: "int \<Rightarrow> Node \<Rightarrow> Client \<Rightarrow> Client \<times> effect list" where
  "handleConnectSuccess now node c =
     (c\<lparr>LastSuccessfulConnect := now, AutoReconnectErrors := 0, IsLoggedIn := True\<rparr>,
      [Logged MainLog LInfo ''Successfully authenticated'', Spawn GoPostConnect])"

section \<open>Inbound router and handler queue\<close>

text \<open>
  Modelled from the spec: \<open>receiveResponse\<close> is not among the sources at hand. By the
  spec, a node whose \<open>id\<close> attribute matches an outstanding waiter is delivered to that
  waiter, the entry is removed, and the router stops; the result says whether that happened.
\<close>

definition receiveResponse :: "Node \<Rightarrow> Client \<Rightarrow> Client \<times> bool \<times> effect list" where
  "receiveResponse node c =
     (case map_of (Attrs node) ''id'' of
        Some (AString i) \<Rightarrow>
          (case map_of (responseWaiters c) i of
             Some w \<Rightarrow>
               (c\<lparr>responseWaiters := filter (\<lambda>(k, v). k \<noteq> i) (responseWaiters c)\<rparr>,
                True, [ChanSend w (Some node)])
           | None \<Rightarrow> (c, False, []))
      | _ \<Rightarrow> (c, False, []))"

text \<open>
  \<open>handleFrame\<close>. The codec's \<open>Unpack\<close> and \<open>Unmarshal\<close> are parameters. The \<open>select\<close> with
  a \<open>default\<close> sends when the buffered channel has room; otherwise it logs and starts a
  goroutine that blocks on the send.
\<close>

definition handleFrame ::
  "(8 word list \<Rightarrow> error + 8 word list) \<Rightarrow> (8 word list \<Rightarrow> error + Node)
     \<Rightarrow> 8 word list \<Rightarrow> Client \<Rightarrow> Client \<times> effect list" where
  "handleFrame Unpack Unmarshal data c =
     (case Unpack data of
        Inl err \<Rightarrow>
          (c, [Logged MainLog LWarn ''Failed to decompress frame: %v'',
               Logged MainLog LDebug ''Errored frame hex: %s''])
      | Inr decompressed \<Rightarrow>
          (case Unmarshal decompressed of
             Inl err \<Rightarrow>
               (c, [Logged MainLog LWarn ''Failed to decode node in frame: %v'',
                    Logged MainLog LDebug ''Errored frame hex: %s''])
           | Inr node \<Rightarrow>
               (let e0 = [Logged RecvLog LDebug ''%s'']
                in if Tag node = ''xmlstreamend''
                   then (c, e0 @ (if \<not> isExpectedDisconnect c
                                  then [Logged MainLog LWarn ''Received stream end frame'']
                                  else []))
                   else
                     (case receiveResponse node c of
                        (c1, True, e1) \<Rightarrow> (c1, e0 @ e1)
                      | (c1, False, e1) \<Rightarrow>
                          if nodeHandlers c1 (Tag node) \<noteq> None
                          then
                            (if length (handlerQueue c1) < handlerQueueSize
                             then (c1\<lparr>handlerQueue := handlerQueue c1 @ [node]\<rparr>, e0 @ e1)
                             else (c1, e0 @ e1 @
                                    [Logged MainLog LWarn
                                       ''Handler queue is full, message ordering is no longer guaranteed'',
                                     Spawn (GoBlockingPush node)]))
                          else (c1, e0 @ e1 @
                                 [Logged MainLog LDebug ''Didn't handle WhatsApp node''])))))"

text \<open>
  The goroutine started on a full queue: its send completes once the channel has room;
  until then it stays blocked (\<open>None\<close>).
\<close>

definition blocking_push :: "Node \<Rightarrow> Client \<Rightarrow> Client option" where
  "blocking_push node c =
     (if length (handlerQueue c) < handlerQueueSize
      then Some (c\<lparr>handlerQueue := handlerQueue c @ [node]\<rparr>)
      else None)"

text \<open>What the outside world answers while a tag handler runs.\<close>

record handler_env =
  delete_result :: "error option"
  time_Now :: int

text \<open>
  Calling a bound tag handler. The handlers whose bodies are among the sources at hand run
  as defined above; the others are recorded as a call and their bodies are not modelled.
\<close>

definition call_nodeHandler ::
  "handler_env \<Rightarrow> nodeHandler \<Rightarrow> Node \<Rightarrow> Client \<Rightarrow> Client \<times> effect list" where
  "call_nodeHandler env h node c =
     (case h of
        HandleStreamError \<Rightarrow> handleStreamError (delete_result env) node c
      | HandleConnectFailure \<Rightarrow> handleConnectFailure (delete_result env) node c
      | HandleConnectSuccess \<Rightarrow> handleConnectSuccess (time_Now env) node c
      | HandleIB \<Rightarrow> handleIB node c
      | _ \<Rightarrow> (c, [CallNodeHandler h node]))"

text \<open>
  One turn of the \<open>select\<close> in \<open>handlerQueueLoop\<close> that receives from the queue: with
  nothing queued the worker keeps waiting; otherwise the oldest node is taken and
  \<open>cli.nodeHandlers[node.Tag](node)\<close> is called, which panics when the lookup gives \<open>nil\<close>.
\<close>

definition handlerQueueLoop_step ::
  "handler_env \<Rightarrow> Client \<Rightarrow> (Client \<times> effect list) go_result" where
  "handlerQueueLoop_step env c =
     (case handlerQueue c of
        [] \<Rightarrow> Returned (c, [])
      | node # rest \<Rightarrow>
          (case nodeHandlers c (Tag node) of
             None \<Rightarrow> Panicked ''invalid memory address or nil pointer dereference''
           | Some h \<Rightarrow> Returned (call_nodeHandler env h node (c\<lparr>handlerQueue := rest\<rparr>))))"

subsection \<open>The session as a transition system\<close>

text \<open>
  The client together with the goroutines blocked on a send to the handler queue and the
  process-wide handler id counter. An action is one operation of the session running to
  its end; a run is any sequence of them. \<open>None\<close> is a process brought down by a panic of
  the worker.
\<close>

record system =
  cli :: Client
  pushers :: "Node list"
  nextHandlerID :: "32 word"

datatype action =
    Frame "8 word list"
  | Worker handler_env
  | Pusher nat
  | DoConnect conn_env
  | DoDisconnect
  | SocketClosed sockid bool
  | DoAutoReconnect "conn_env list"
  | DoReconnect515 conn_env
  | DoLogout "Node option \<times> error option" "error option"
  | DoAddEventHandler "fn_ref option"
  | DoRemoveEventHandler "32 word"
  | DoRemoveEventHandlers
  | DoGenerateRequestID

definition spawned_pushers :: "effect list \<Rightarrow> Node list" where
  "spawned_pushers es =
     List.map_filter (\<lambda>e. case e of Spawn (GoBlockingPush n) \<Rightarrow> Some n | _ \<Rightarrow> None) es"

definition sys_step ::
  "(8 word list \<Rightarrow> error + 8 word list) \<Rightarrow> (8 word list \<Rightarrow> error + Node)
     \<Rightarrow> action \<Rightarrow> system \<Rightarrow> system option" where
  "sys_step Unpack Unmarshal a s =
     (case a of
        Frame data \<Rightarrow>
          (let (c, es) = handleFrame Unpack Unmarshal data (cli s)
           in Some (s\<lparr>cli := c, pushers := pushers s @ spawned_pushers es\<rparr>))
      | Worker env \<Rightarrow>
          (case handlerQueueLoop_step env (cli s) of
             Panicked p \<Rightarrow> None
           | Returned (c, es) \<Rightarrow> Some (s\<lparr>cli := c\<rparr>))
      | Pusher k \<Rightarrow>
          (if k < length (pushers s)
           then (case blocking_push (pushers s ! k) (cli s) of
                   None \<Rightarrow> Some s
                 | Some c \<Rightarrow>
                     Some (s\<lparr>cli := c, pushers := take k (pushers s) @ drop (Suc k) (pushers s)\<rparr>))
           else Some s)
      | DoConnect env \<Rightarrow> Some (s\<lparr>cli := fst (Connect env (cli s))\<rparr>)
      | DoDisconnect \<Rightarrow> Some (s\<lparr>cli := fst (Disconnect (cli s))\<rparr>)
      | SocketClosed ns remote \<Rightarrow> Some (s\<lparr>cli := fst (onDisconnect ns remote (cli s))\<rparr>)
      | DoAutoReconnect envs \<Rightarrow>
          (case autoReconnect envs (cli s) of
             None \<Rightarrow> Some s
           | Some (c, es) \<Rightarrow> Some (s\<lparr>cli := c\<rparr>))
      | DoReconnect515 env \<Rightarrow> Some (s\<lparr>cli := fst (reconnect515 env (cli s))\<rparr>)
      | DoLogout answer del \<Rightarrow> Some (s\<lparr>cli := fst (Logout (\<lambda>q. answer) del (cli s))\<rparr>)
      | DoAddEventHandler f \<Rightarrow>
          (let (g, c, i) = AddEventHandler f (nextHandlerID s) (cli s)
           in Some (s\<lparr>cli := c, nextHandlerID := g\<rparr>))
      | DoRemoveEventHandler i \<Rightarrow> Some (s\<lparr>cli := fst (RemoveEventHandler i (cli s))\<rparr>)
      | DoRemoveEventHandlers \<Rightarrow> Some (s\<lparr>cli := RemoveEventHandlers (cli s)\<rparr>)
      | DoGenerateRequestID \<Rightarrow> Some (s\<lparr>cli := fst (generateRequestID (cli s))\<rparr>))"

fun run ::
  "(8 word list \<Rightarrow> error + 8 word list) \<Rightarrow> (8 word list \<Rightarrow> error + Node)
     \<Rightarrow> action list \<Rightarrow> system \<Rightarrow> system option" where
  "run Unpack Unmarshal [] s = Some s"
| "run Unpack Unmarshal (a # as) s =
     (case sys_step Unpack Unmarshal a s of
        None \<Rightarrow> None
      | Some s' \<Rightarrow> run Unpack Unmarshal as s')"

definition start :: "Device \<Rightarrow> 8 word \<Rightarrow> 8 word \<Rightarrow> 32 word \<Rightarrow> system" where
  "start deviceStore b0 b1 g = \<lparr>cli = NewClient deviceStore b0 b1, pushers = [], nextHandlerID = g\<rparr>"

section \<open>Profile pictures\<close>

record ProfilePictureInfo =
  pic_URL :: string
  pic_ID :: string
  pic_Type :: string
  pic_DirectPath :: string

text \<open>
  \<open>GetProfilePictureInfo\<close>. The answer of \<open>sendIQ\<close> to the query (response node and error)
  is a parameter. A method called on a \<open>nil\<close> response and a type assertion without the
  \<open>ok\<close> form on a value that is not a string both panic.
\<close>

definition GetProfilePictureInfo ::
  "(infoQuery \<Rightarrow> Node option \<times> error option) \<Rightarrow> jid \<Rightarrow> bool
     \<Rightarrow> (ProfilePictureInfo option \<times> error option) go_result" where
  "GetProfilePictureInfo sendIQ j preview =
     (let attrs = [(''query'', AString ''url''),
                   (''type'', AString (if preview then ''preview'' else ''image''))];
          (resp, err) = sendIQ \<lparr>Namespace = ''w:profile:picture'', Type = ''get'', To = j,
                                QContent = [Node ''picture'' attrs CNil]\<rparr>
      in case err of
           Some e \<Rightarrow>
             (if errors_Is e ErrIQError
              then
                (case resp of
                   None \<Rightarrow> Panicked ''invalid memory address or nil pointer dereference''
                 | Some r \<Rightarrow>
                     (case map_of (Attrs (GetChildByTag r ''error'')) ''code'' of
                        Some (AString code) \<Rightarrow>
                          if code = ''404'' then Returned (None, None)
                          else if code = ''401''
                          then Returned (None, Some ErrProfilePictureUnauthorized)
                          else Returned (None, Some e)
                      | _ \<Rightarrow> Panicked ''interface conversion: interface {} is not string''))
              else Returned (None, Some e))
         | None \<Rightarrow>
             (case resp of
                None \<Rightarrow> Panicked ''invalid memory address or nil pointer dereference''
              | Some r \<Rightarrow>
                  (let (picture, ok) = GetOptionalChildByTag r ''picture''
                   in if \<not> ok
                      then Returned (None, Some (OtherError
                             ''missing <picture> element in response to profile picture query''))
                      else
                        (let (pid, e1) = ag_String picture ''id'';
                             (purl, e2) = ag_String picture ''url'';
                             (ptype, e3) = ag_String picture ''type'';
                             (pdir, e4) = ag_String picture ''direct_path'';
                             info = \<lparr>pic_URL = purl, pic_ID = pid, pic_Type = ptype,
                                     pic_DirectPath = pdir\<rparr>
                         in if e1 @ e2 @ e3 @ e4 \<noteq> []
                            then Returned (Some info, Some (OtherError ''missing or mistyped attributes''))
                            else Returned (Some info, None)))))"

section \<open>Notions used in the statements\<close>

text \<open>
  Answers of the outside world that make \<open>Connect\<close> fail with an error other than
  \<open>ErrAlreadyConnected\<close> whatever the socket slot holds, and answers with which the dial
  and the handshake both succeed.
\<close>

definition connect_refused :: "conn_env \<Rightarrow> bool" where
  "connect_refused env =
     (\<not> old_IsConnected env \<and>
      (case fs_Connect env of
         Some e \<Rightarrow> \<not> errors_Is e ErrAlreadyConnected
       | None \<Rightarrow> (case handshake env of
                    Inl e \<Rightarrow> \<not> errors_Is e ErrAlreadyConnected
                  | Inr ns \<Rightarrow> False)))"

definition connect_accepted :: "conn_env \<Rightarrow> bool" where
  "connect_accepted env =
     (fs_Connect env = None \<and> (case handshake env of Inl e \<Rightarrow> False | Inr ns \<Rightarrow> True))"

text \<open>The durations slept, in order, among the effects of an operation.\<close>

definition sleeps :: "effect list \<Rightarrow> 64 word list" where
  "sleeps es = concat (map (\<lambda>e. case e of Slept d \<Rightarrow> [d] | _ \<Rightarrow> []) es)"

text \<open>
  The handler table is \<open>H\<close>, and every node in the handler queue or held by a blocked
  pusher has a tag that \<open>H\<close> binds.
\<close>

definition queue_tags_bound :: "(string \<rightharpoonup> nodeHandler) \<Rightarrow> system \<Rightarrow> bool" where
  "queue_tags_bound H s =
     (nodeHandlers (cli s) = H
      \<and> (\<forall>n\<in>set (handlerQueue (cli s)). H (Tag n) \<noteq> None)
      \<and> (\<forall>n\<in>set (pushers s). H (Tag n) \<noteq> None))"

section \<open>Example inputs\<close>

definition ex_handlers :: "wrappedEventHandler list" where
  "ex_handlers = [\<lparr>fn = Some 1, id' = 1\<rparr>, \<lparr>fn = Some 2, id' = 2\<rparr>, \<lparr>fn = Some 3, id' = 3\<rparr>]"

definition ex_subscribed :: Client where
  "ex_subscribed = (NewClient \<lparr>ID = Some (UserJID ''12345'')\<rparr> 255 16)\<lparr>eventHandlers := ex_handlers\<rparr>"

definition ex_panics :: "fn_ref \<Rightarrow> event \<Rightarrow> string option" where
  "ex_panics f evt = (if f = 2 then Some ''boom'' else None)"

definition ex_connected :: Client where
  "ex_connected =
     (NewClient \<lparr>ID = Some (UserJID ''12345'')\<rparr> 255 16)
       \<lparr>socket := Some 7, responseWaiters := [(''255.16-1'', 4), (''255.16-2'', 5)]\<rparr>"

definition ex_node515 :: Node where
  "ex_node515 = Node ''stream:error'' [(''code'', AString ''515'')] CNil"

definition ex_sendIQ_ok :: "infoQuery \<Rightarrow> Node option \<times> error option" where
  "ex_sendIQ_ok q = (Some (Node ''iq'' [(''type'', AString ''result'')] CNil), None)"

definition ex_sendIQ_timeout :: "infoQuery \<Rightarrow> Node option \<times> error option" where
  "ex_sendIQ_timeout q = (None, Some ErrIQTimedOut)"

definition ex_env_ok :: conn_env where
  "ex_env_ok = \<lparr>old_IsConnected = False, fs_Connect = None, handshake = Inr 8\<rparr>"

definition ex_iq_reply :: Node where
  "ex_iq_reply = Node ''iq'' [(''id'', AString ''255.16-1''), (''type'', AString ''result'')] CNil"

definition ex_message :: Node where
  "ex_message = Node ''message'' [(''id'', AString ''ABCD'')] CNil"

definition ex_presence :: Node where
  "ex_presence = Node ''presence'' [] CNil"

definition ex_streamend :: Node where
  "ex_streamend = Node ''xmlstreamend'' [(''id'', AString ''255.16-1'')] CNil"

definition ex_Unpack :: "8 word list \<Rightarrow> error + 8 word list" where
  "ex_Unpack data = Inr data"

definition ex_Unmarshal :: "8 word list \<Rightarrow> error + Node" where
  "ex_Unmarshal data =
     (if data = [1] then Inr ex_iq_reply
      else if data = [2] then Inr ex_message
      else if data = [3] then Inr ex_presence
      else if data = [4] then Inr ex_streamend
      else Inl (OtherError ''unexpected token''))"

definition ex_full :: Client where
  "ex_full = ex_connected\<lparr>handlerQueue := replicate 2048 ex_message\<rparr>"

definition ex_iq_error_nocode :: Node where
  "ex_iq_error_nocode =
     Node ''iq'' [(''id'', AString ''255.16-1''), (''type'', AString ''error'')]
       (CNodes [Node ''error'' [(''text'', AString ''item-not-found'')] CNil])"

definition ex_sendIQ_error_nocode :: "infoQuery \<Rightarrow> Node option \<times> error option" where
  "ex_sendIQ_error_nocode q = (Some ex_iq_error_nocode, Some ErrIQError)"

definition ex_env_fail :: conn_env where
  "ex_env_fail =
     \<lparr>old_IsConnected = False, fs_Connect = Some (OtherError ''dial tcp: i/o timeout''),
      handshake = Inr 9\<rparr>"

definition ex_paired :: Client where
  "ex_paired = NewClient \<lparr>ID = Some (UserJID ''12345'')\<rparr> 255 16"

definition ex_handler_env :: handler_env where
  "ex_handler_env = \<lparr>delete_result = None, time_Now = 1636000000\<rparr>"

section \<open>Properties of the event bus\<close>

lemma find_handler_None: "find_handler i hs k = None \<longleftrightarrow> i \<notin> id' ` set hs"
  by (induction hs arbitrary: k) auto

lemma find_handler_Some:
  "find_handler i hs k = Some n \<Longrightarrow>
     k \<le> n \<and> n - k < length hs \<and> id' (hs ! (n - k)) = i \<and> i \<notin> id' ` set (take (n - k) hs)"
proof (induction hs arbitrary: k)
  case Nil then show ?case by simp
next
  case (Cons h hs)
  show ?case
  proof (cases "id' h = i")
    case True with Cons.prems show ?thesis by simp
  next
    case False
    with Cons.prems have "find_handler i hs (Suc k) = Some n" by simp
    from Cons.IH[OF this] have *: "Suc k \<le> n" "n - Suc k < length hs" "id' (hs ! (n - Suc k)) = i"
      "i \<notin> id' ` set (take (n - Suc k) hs)" by auto
    then obtain m where m: "n - k = Suc m" "m = n - Suc k" by (cases "n - k") auto
    show ?thesis using * m False by auto
  qed
qed

lemma remove_at:
  assumes "0 < n" "n < length hs"
  shows "(let hs1 = (if n < length hs - 1 then copy_down n hs else hs);
             hs2 = hs1[length hs1 - 1 := (hs1 ! (length hs1 - 1))\<lparr>fn := None\<rparr>]
         in take (length hs2 - 1) hs2) = take n hs @ drop (Suc n) hs"
proof (cases "n < length hs - 1")
  case True
  then have len: "length (copy_down n hs) = length hs"
    by (simp add: copy_down_def)
  have "take (length hs - 1) (copy_down n hs) = take n hs @ drop (Suc n) hs"
    using True by (simp add: copy_down_def)
  with True len show ?thesis by (simp add: Let_def)
next
  case False
  with assms have "n = length hs - 1" by simp
  then show ?thesis using assms by (simp add: Let_def)
qed

lemma remove_first: "0 < length hs \<Longrightarrow> drop 1 (hs[0 := x]) = take 0 hs @ drop (Suc 0) hs"
  by (cases hs) auto

lemma RemoveEventHandler_found:
  assumes "find_handler i (eventHandlers c) 0 = Some n"
  shows "RemoveEventHandler i c =
           (c\<lparr>eventHandlers := take n (eventHandlers c) @ drop (Suc n) (eventHandlers c)\<rparr>, True)"
proof -
  from find_handler_Some[OF assms] have n: "n < length (eventHandlers c)" by simp
  show ?thesis
  proof (cases "n = 0")
    case True
    with n assms show ?thesis
      by (simp add: RemoveEventHandler_def remove_first)
  next
    case False
    then have "0 < n" by simp
    from remove_at[OF this n] assms False show ?thesis
      by (simp add: RemoveEventHandler_def Let_def)
  qed
qed

lemma RemoveEventHandler_missing:
  "i \<notin> id' ` set (eventHandlers c) \<Longrightarrow> RemoveEventHandler i c = (c, False)"
  using find_handler_None[of i "eventHandlers c" 0] by (simp add: RemoveEventHandler_def)

lemma RemoveEventHandler_split:
  assumes "i \<in> id' ` set (eventHandlers c)"
  shows "\<exists>xs h ys. eventHandlers c = xs @ h # ys \<and> id' h = i \<and> i \<notin> id' ` set xs \<and>
           RemoveEventHandler i c = (c\<lparr>eventHandlers := xs @ ys\<rparr>, True)"
proof -
  from assms find_handler_None[of i "eventHandlers c" 0]
  obtain n where n: "find_handler i (eventHandlers c) 0 = Some n" by (cases "find_handler i (eventHandlers c) 0") auto
  let ?hs = "eventHandlers c"
  from find_handler_Some[OF n] have a: "n < length ?hs" "id' (?hs ! n) = i" "i \<notin> id' ` set (take n ?hs)"
    by simp_all
  have "?hs = take n ?hs @ (?hs ! n) # drop (Suc n) ?hs"
    using a(1) by (simp add: id_take_nth_drop)
  with a RemoveEventHandler_found[OF n] show ?thesis by blast
qed

lemma run_handlers_calls:
  "CallEventHandler f e \<in> set (fst (run_handlers panics evt hs)) \<Longrightarrow>
     e = evt \<and> (\<exists>h\<in>set hs. fn h = Some f)"
  by (induction hs) (auto split: option.splits prod.splits)

lemma dispatchEvent_calls:
  "CallEventHandler f e \<in> set (fst (dispatchEvent panics evt c)) \<Longrightarrow>
     e = evt \<and> (\<exists>h\<in>set (eventHandlers c). fn h = Some f)"
  using run_handlers_calls[of f e panics evt "eventHandlers c"]
  by (auto simp: dispatchEvent_def split: prod.splits option.splits)

lemma AddEventHandler_fresh:
  assumes "distinct (map id' (eventHandlers c))"
    and "\<forall>h\<in>set (eventHandlers c). id' h \<le> g"
    and "g < g + 1"
    and "AddEventHandler f g c = (g', c', i)"
  shows "i = g + 1 \<and> g' = g + 1 \<and> i \<in> id' ` set (eventHandlers c')
         \<and> distinct (map id' (eventHandlers c'))
         \<and> (\<forall>h\<in>set (eventHandlers c'). id' h \<le> g')"
proof -
  from assms(4) have eq: "g' = g + 1" "i = g + 1"
    "eventHandlers c' = eventHandlers c @ [\<lparr>fn = f, id' = g + 1\<rparr>]"
    by (auto simp: AddEventHandler_def Let_def)
  have "g + 1 \<notin> id' ` set (eventHandlers c)"
  proof
    assume "g + 1 \<in> id' ` set (eventHandlers c)"
    then obtain h where "h \<in> set (eventHandlers c)" "id' h = g + 1" by auto
    with assms(2) have "g + 1 \<le> g" by auto
    with assms(3) show False by simp
  qed
  moreover have "\<forall>h\<in>set (eventHandlers c). id' h \<le> g + 1"
    using assms(2,3) by (meson less_imp_le order_trans)
  ultimately show ?thesis using eq assms(1) by auto
qed

text \<open>
  Claim C8. \<open>RemoveEventHandler i\<close> on a registered id returns true and removes the first
  subscriber carrying that id, the others keeping their order; on an id that is not
  registered it returns false and changes nothing. When the registered ids are pairwise
  distinct (as \<open>AddEventHandler\<close> hands them out, see \<open>AddEventHandler_fresh\<close>), no
  subscriber with the removed id is left, and every callback that a later dispatch calls
  belongs to a subscriber registered under another id.
\<close>

theorem RemoveEventHandler_correct:
  "(i \<in> id' ` set (eventHandlers c) \<longrightarrow>
      (\<exists>xs h ys. eventHandlers c = xs @ h # ys \<and> id' h = i \<and> i \<notin> id' ` set xs \<and>
         RemoveEventHandler i c = (c\<lparr>eventHandlers := xs @ ys\<rparr>, True)))
   \<and> (i \<notin> id' ` set (eventHandlers c) \<longrightarrow> RemoveEventHandler i c = (c, False))
   \<and> (distinct (map id' (eventHandlers c)) \<longrightarrow> snd (RemoveEventHandler i c) \<longrightarrow>
        i \<notin> id' ` set (eventHandlers (fst (RemoveEventHandler i c))) \<and>
        (\<forall>panics evt f e.
           CallEventHandler f e \<in> set (fst (dispatchEvent panics evt (fst (RemoveEventHandler i c))))
           \<longrightarrow> (\<exists>h\<in>set (eventHandlers c). fn h = Some f \<and> id' h \<noteq> i)))"
proof (intro conjI impI)
  assume "i \<in> id' ` set (eventHandlers c)"
  then show "\<exists>xs h ys. eventHandlers c = xs @ h # ys \<and> id' h = i \<and> i \<notin> id' ` set xs \<and>
         RemoveEventHandler i c = (c\<lparr>eventHandlers := xs @ ys\<rparr>, True)"
    by (rule RemoveEventHandler_split)
next
  assume "i \<notin> id' ` set (eventHandlers c)"
  then show "RemoveEventHandler i c = (c, False)" by (rule RemoveEventHandler_missing)
next
  assume d: "distinct (map id' (eventHandlers c))" and r: "snd (RemoveEventHandler i c)"
  have "i \<in> id' ` set (eventHandlers c)"
  proof (rule ccontr)
    assume "i \<notin> id' ` set (eventHandlers c)"
    from RemoveEventHandler_missing[OF this] r show False by simp
  qed
  from RemoveEventHandler_split[OF this] obtain xs h ys where
    s: "eventHandlers c = xs @ h # ys" "id' h = i"
       "RemoveEventHandler i c = (c\<lparr>eventHandlers := xs @ ys\<rparr>, True)" by blast
  from d s(1,2) have notin: "i \<notin> id' ` set (xs @ ys)" by auto
  with s(3) show a: "i \<notin> id' ` set (eventHandlers (fst (RemoveEventHandler i c)))" by simp
  show "\<forall>panics evt f e.
           CallEventHandler f e \<in> set (fst (dispatchEvent panics evt (fst (RemoveEventHandler i c))))
           \<longrightarrow> (\<exists>h\<in>set (eventHandlers c). fn h = Some f \<and> id' h \<noteq> i)"
  proof (intro allI impI)
    fix panics evt f e
    assume "CallEventHandler f e \<in> set (fst (dispatchEvent panics evt (fst (RemoveEventHandler i c))))"
    from dispatchEvent_calls[OF this] obtain h' where
      h': "h' \<in> set (eventHandlers (fst (RemoveEventHandler i c)))" "fn h' = Some f" by blast
    with a have "id' h' \<noteq> i" by auto
    moreover from h'(1) s have "h' \<in> set (eventHandlers c)" by auto
    ultimately show "\<exists>h\<in>set (eventHandlers c). fn h = Some f \<and> id' h \<noteq> i" using h'(2) by blast
  qed
qed

theorem RemoveEventHandler_correct_witness:
  "(2::32 word) \<in> id' ` set (eventHandlers ex_subscribed)
   \<and> distinct (map id' (eventHandlers ex_subscribed))
   \<and> RemoveEventHandler 2 ex_subscribed =
       (ex_subscribed\<lparr>eventHandlers := [\<lparr>fn = Some 1, id' = 1\<rparr>, \<lparr>fn = Some 3, id' = 3\<rparr>]\<rparr>, True)
   \<and> RemoveEventHandler 9 ex_subscribed = (ex_subscribed, False)
   \<and> CallEventHandler 2 Disconnected \<notin>
        set (fst (dispatchEvent ex_panics Disconnected (fst (RemoveEventHandler 2 ex_subscribed))))"
  using RemoveEventHandler_correct[of 2 ex_subscribed] RemoveEventHandler_correct[of 9 ex_subscribed]
  by (simp add: ex_subscribed_def ex_handlers_def RemoveEventHandler_def copy_down_def
      dispatchEvent_def ex_panics_def NewClient_def)

lemma run_handlers_until_panic:
  assumes "map fn xs = map Some fs"
    and "\<forall>g\<in>set fs. panics g evt = None"
    and "fn h = Some f"
    and "panics f evt = Some p"
  shows "run_handlers panics evt (xs @ h # ys) =
           (map (\<lambda>g. CallEventHandler g evt) fs @ [CallEventHandler f evt], Some p)"
  using assms(1,2)
proof (induction xs arbitrary: fs)
  case Nil
  then show ?case using assms(3,4) by simp
next
  case (Cons x xs)
  then obtain g gs where fs: "fs = g # gs" "fn x = Some g" "map fn xs = map Some gs"
    by (cases fs) auto
  with Cons.prems have "panics g evt = None" "\<forall>g\<in>set gs. panics g evt = None" by auto
  with Cons.IH[OF fs(3)] fs show ?case by simp
qed

text \<open>
  Claim C1, as the code has it. \<open>dispatchEvent\<close> never lets a panic reach its caller.
  When a subscriber panics and every subscriber before it returned, the calls made are
  those of the subscribers before it, in registration order, then the call that panicked,
  and the panic is logged at error level with the stack; the subscribers after it are not
  called for this event.
\<close>

theorem dispatchEvent_panic_stops_fanout:
  "snd (dispatchEvent panics evt c) = None
   \<and> (eventHandlers c = xs @ h # ys \<longrightarrow> map fn xs = map Some fs \<longrightarrow>
        (\<forall>g\<in>set fs. panics g evt = None) \<longrightarrow> fn h = Some f \<longrightarrow> panics f evt = Some p \<longrightarrow>
        fst (dispatchEvent panics evt c) =
          map (\<lambda>g. CallEventHandler g evt) fs
          @ [CallEventHandler f evt,
             Logged MainLog LError ''Event handler panicked while handling a %T: %v %s''])"
proof (intro conjI impI)
  show "snd (dispatchEvent panics evt c) = None"
    by (simp add: dispatchEvent_def split: prod.splits option.splits)
next
  assume "eventHandlers c = xs @ h # ys" "map fn xs = map Some fs"
    "\<forall>g\<in>set fs. panics g evt = None" "fn h = Some f" "panics f evt = Some p"
  with run_handlers_until_panic[of xs fs panics evt h f p ys]
  show "fst (dispatchEvent panics evt c) =
          map (\<lambda>g. CallEventHandler g evt) fs
          @ [CallEventHandler f evt,
             Logged MainLog LError ''Event handler panicked while handling a %T: %v %s'']"
    by (simp add: dispatchEvent_def)
qed

theorem dispatchEvent_panic_stops_fanout_witness:
  "eventHandlers ex_subscribed = [\<lparr>fn = Some 1, id' = 1\<rparr>] @ \<lparr>fn = Some 2, id' = 2\<rparr> # [\<lparr>fn = Some 3, id' = 3\<rparr>]
   \<and> ex_panics 1 (AppEvent ''e'') = None
   \<and> ex_panics 2 (AppEvent ''e'') = Some ''boom''
   \<and> dispatchEvent ex_panics (AppEvent ''e'') ex_subscribed =
        ([CallEventHandler 1 (AppEvent ''e''), CallEventHandler 2 (AppEvent ''e''),
          Logged MainLog LError ''Event handler panicked while handling a %T: %v %s''], None)"
  using dispatchEvent_panic_stops_fanout[of ex_panics "AppEvent ''e''" ex_subscribed
      "[\<lparr>fn = Some 1, id' = 1\<rparr>]" "\<lparr>fn = Some 2, id' = 2\<rparr>" "[\<lparr>fn = Some 3, id' = 3\<rparr>]" "[1]" 2 "''boom''"]
  by (simp add: ex_subscribed_def ex_handlers_def ex_panics_def NewClient_def prod_eq_iff)

text \<open>
  Claim C1 as stated fails: with three subscribers of which the second panics, the third
  is not called.
\<close>

theorem dispatchEvent_later_subscriber_skipped:
  "eventHandlers ex_subscribed = [\<lparr>fn = Some 1, id' = 1\<rparr>, \<lparr>fn = Some 2, id' = 2\<rparr>, \<lparr>fn = Some 3, id' = 3\<rparr>]
   \<and> ex_panics 2 (AppEvent ''e'') = Some ''boom''
   \<and> CallEventHandler 3 (AppEvent ''e'') \<notin> set (fst (dispatchEvent ex_panics (AppEvent ''e'') ex_subscribed))"
  by (simp add: ex_subscribed_def ex_handlers_def ex_panics_def NewClient_def dispatchEvent_def)

section \<open>Properties of the lifecycle\<close>

lemma clearResponseWaiters_simps [simp]:
  "fst (clearResponseWaiters c) = c\<lparr>responseWaiters := []\<rparr>"
  "snd (clearResponseWaiters c) = map (\<lambda>(k, w). ChanSend w None) (responseWaiters c)"
  by (simp_all add: clearResponseWaiters_def)

lemma onDisconnect_other:
  "socket c \<noteq> Some ns \<Longrightarrow>
     onDisconnect ns remote c =
       (c, [SocketStop ns False, Logged MainLog LDebug ''Ignoring OnDisconnect on different socket''])"
  by (simp add: onDisconnect_def)

lemma onDisconnect_active:
  "socket c = Some ns \<Longrightarrow>
     fst (onDisconnect ns remote c) = c\<lparr>socket := None, responseWaiters := []\<rparr>
     \<and> (\<exists>tl. snd (onDisconnect ns remote c) =
           SocketStop ns False # map (\<lambda>(k, w). ChanSend w None) (responseWaiters c) @ tl
           \<and> tl = (if remote \<and> \<not> isExpectedDisconnect c
                   then [Logged MainLog LDebug ''Emitting Disconnected event'',
                         Spawn (GoDispatchEvent Disconnected), Spawn GoAutoReconnect]
                   else if remote
                   then [Logged MainLog LDebug
                           ''OnDisconnect() called, but it was expected, so not emitting event'']
                   else [Logged MainLog LDebug ''OnDisconnect() called after manual disconnection'']))"
  by (simp add: onDisconnect_def Let_def clearResponseWaiters_def isExpectedDisconnect_def)

text \<open>
  Claim C2. \<open>onDisconnect ns remote\<close> for a socket that is not the one in the slot leaves
  the client as it is: all it does is stop the reported socket itself and log at debug
  level. For the active socket the slot is cleared, the waiter map is emptied with every
  waiter released, and both the \<open>Disconnected\<close> event and the auto-reconnect goroutine are
  started exactly when \<open>remote\<close> holds and the expected-disconnect flag is not set.
\<close>

theorem onDisconnect_table:
  "(socket c \<noteq> Some ns \<longrightarrow>
      fst (onDisconnect ns remote c) = c
      \<and> (\<forall>e\<in>set (snd (onDisconnect ns remote c)).
            e = SocketStop ns False
            \<or> e = Logged MainLog LDebug ''Ignoring OnDisconnect on different socket''))
   \<and> (socket c = Some ns \<longrightarrow>
        socket (fst (onDisconnect ns remote c)) = None
        \<and> responseWaiters (fst (onDisconnect ns remote c)) = []
        \<and> (\<forall>(k, w)\<in>set (responseWaiters c). ChanSend w None \<in> set (snd (onDisconnect ns remote c)))
        \<and> (Spawn (GoDispatchEvent Disconnected) \<in> set (snd (onDisconnect ns remote c))
             \<longleftrightarrow> remote \<and> \<not> isExpectedDisconnect c)
        \<and> (Spawn GoAutoReconnect \<in> set (snd (onDisconnect ns remote c))
             \<longleftrightarrow> remote \<and> \<not> isExpectedDisconnect c))"
proof (intro conjI impI)
  assume "socket c \<noteq> Some ns"
  from onDisconnect_other[OF this, of remote]
  show "fst (onDisconnect ns remote c) = c"
    and "\<forall>e\<in>set (snd (onDisconnect ns remote c)).
            e = SocketStop ns False
            \<or> e = Logged MainLog LDebug ''Ignoring OnDisconnect on different socket''"
    by simp_all
next
  assume a: "socket c = Some ns"
  from onDisconnect_active[OF a, of remote] obtain tl where
    f: "fst (onDisconnect ns remote c) = c\<lparr>socket := None, responseWaiters := []\<rparr>" and
    s: "snd (onDisconnect ns remote c) =
           SocketStop ns False # map (\<lambda>(k, w). ChanSend w None) (responseWaiters c) @ tl" and
    t: "tl = (if remote \<and> \<not> isExpectedDisconnect c
                   then [Logged MainLog LDebug ''Emitting Disconnected event'',
                         Spawn (GoDispatchEvent Disconnected), Spawn GoAutoReconnect]
                   else if remote
                   then [Logged MainLog LDebug
                           ''OnDisconnect() called, but it was expected, so not emitting event'']
                   else [Logged MainLog LDebug ''OnDisconnect() called after manual disconnection''])"
    by blast
  from f show "socket (fst (onDisconnect ns remote c)) = None"
    and "responseWaiters (fst (onDisconnect ns remote c)) = []" by simp_all
  from s show "\<forall>(k, w)\<in>set (responseWaiters c). ChanSend w None \<in> set (snd (onDisconnect ns remote c))"
    by force
  have no: "\<And>t. Spawn t \<notin> set (map (\<lambda>(k, w). ChanSend w None) (responseWaiters c))"
    by auto
  from s t no show "Spawn (GoDispatchEvent Disconnected) \<in> set (snd (onDisconnect ns remote c))
             \<longleftrightarrow> remote \<and> \<not> isExpectedDisconnect c"
    by auto
  from s t no show "Spawn GoAutoReconnect \<in> set (snd (onDisconnect ns remote c))
             \<longleftrightarrow> remote \<and> \<not> isExpectedDisconnect c"
    by auto
qed

theorem onDisconnect_table_witness:
  "socket ex_connected = Some 7
   \<and> \<not> isExpectedDisconnect ex_connected
   \<and> onDisconnect 7 True ex_connected =
       (ex_connected\<lparr>socket := None, responseWaiters := []\<rparr>,
        [SocketStop 7 False, ChanSend 4 None, ChanSend 5 None,
         Logged MainLog LDebug ''Emitting Disconnected event'',
         Spawn (GoDispatchEvent Disconnected), Spawn GoAutoReconnect])
   \<and> Spawn GoAutoReconnect \<notin> set (snd (onDisconnect 7 True (expectDisconnect ex_connected)))
   \<and> Spawn GoAutoReconnect \<notin> set (snd (onDisconnect 7 False ex_connected))
   \<and> fst (onDisconnect 8 True ex_connected) = ex_connected"
  using onDisconnect_table[of ex_connected 7 True] onDisconnect_table[of ex_connected 8 True]
    onDisconnect_table[of "expectDisconnect ex_connected" 7 True]
    onDisconnect_table[of ex_connected 7 False]
  by (simp add: ex_connected_def NewClient_def onDisconnect_def clearResponseWaiters_def
      isExpectedDisconnect_def expectDisconnect_def Let_def)

lemma Disconnect_simps:
  "socket (fst (Disconnect c)) = None"
  "expectedDisconnectVal (fst (Disconnect c)) = expectedDisconnectVal c"
  "snd (Disconnect c) = (case socket c of None \<Rightarrow> [] | Some s \<Rightarrow> [SocketStop s True])"
  "fst (Disconnect c) = c\<lparr>socket := None\<rparr>"
  by (auto simp: Disconnect_def unlockedDisconnect_def split: option.splits)

text \<open>
  Claim C3, as the code has it. Handling a \<open>stream:error\<close> with code 515 clears
  \<open>IsLoggedIn\<close> and starts a goroutine that calls \<open>Disconnect\<close> and then \<open>Connect\<close>; the
  expected-disconnect flag is not touched by the handler nor by \<open>Disconnect\<close>, so the socket
  is stopped with the flag as it was. \<open>Disconnect\<close> empties the socket slot, which is why a
  later \<open>onDisconnect\<close> for any socket changes nothing and starts neither the
  \<open>Disconnected\<close> event nor auto-reconnect; after the goroutine's \<open>Connect\<close> the flag is
  clear.
\<close>

theorem handleStreamError_515:
  "attr_string_or_empty node ''code'' = ''515'' \<longrightarrow>
     handleStreamError del node c =
       (c\<lparr>IsLoggedIn := False\<rparr>,
        [Logged MainLog LInfo ''Got 515 code, reconnecting...'', Spawn GoReconnect515])
     \<and> reconnect515 env (c\<lparr>IsLoggedIn := False\<rparr>) =
         (fst (Connect env (fst (Disconnect (c\<lparr>IsLoggedIn := False\<rparr>)))),
          snd (Disconnect (c\<lparr>IsLoggedIn := False\<rparr>))
          @ snd (snd (Connect env (fst (Disconnect (c\<lparr>IsLoggedIn := False\<rparr>)))))
          @ (case fst (snd (Connect env (fst (Disconnect (c\<lparr>IsLoggedIn := False\<rparr>))))) of
               Some e \<Rightarrow> [Logged MainLog LError ''Failed to reconnect after 515 code:'']
             | None \<Rightarrow> []))
     \<and> isExpectedDisconnect (fst (handleStreamError del node c)) = isExpectedDisconnect c
     \<and> isExpectedDisconnect (fst (Disconnect (fst (handleStreamError del node c))))
         = isExpectedDisconnect c
     \<and> socket (fst (Disconnect (fst (handleStreamError del node c)))) = None
     \<and> (\<forall>ns remote.
           fst (onDisconnect ns remote (fst (Disconnect (fst (handleStreamError del node c)))))
             = fst (Disconnect (fst (handleStreamError del node c)))
           \<and> Spawn (GoDispatchEvent Disconnected)
               \<notin> set (snd (onDisconnect ns remote (fst (Disconnect (fst (handleStreamError del node c))))))
           \<and> Spawn GoAutoReconnect
               \<notin> set (snd (onDisconnect ns remote (fst (Disconnect (fst (handleStreamError del node c)))))))
     \<and> \<not> isExpectedDisconnect (fst (reconnect515 env (fst (handleStreamError del node c))))"
proof (intro impI)
  assume code: "attr_string_or_empty node ''code'' = ''515''"
  let ?c1 = "c\<lparr>IsLoggedIn := False\<rparr>"
  have h: "handleStreamError del node c =
       (?c1, [Logged MainLog LInfo ''Got 515 code, reconnecting...'', Spawn GoReconnect515])"
    using code by (simp add: handleStreamError_def Let_def)
  have r: "reconnect515 env ?c1 =
         (fst (Connect env (fst (Disconnect ?c1))),
          snd (Disconnect ?c1) @ snd (snd (Connect env (fst (Disconnect ?c1))))
          @ (case fst (snd (Connect env (fst (Disconnect ?c1)))) of
               Some e \<Rightarrow> [Logged MainLog LError ''Failed to reconnect after 515 code:'']
             | None \<Rightarrow> []))"
    by (simp add: reconnect515_def split: prod.splits)
  let ?c2 = "fst (Disconnect ?c1)"
  have s: "socket ?c2 = None" by (rule Disconnect_simps)
  have e: "isExpectedDisconnect ?c2 = isExpectedDisconnect c"
    by (simp add: isExpectedDisconnect_def Disconnect_simps(2))
  have o: "\<forall>ns remote. fst (onDisconnect ns remote ?c2) = ?c2
           \<and> Spawn (GoDispatchEvent Disconnected) \<notin> set (snd (onDisconnect ns remote ?c2))
           \<and> Spawn GoAutoReconnect \<notin> set (snd (onDisconnect ns remote ?c2))"
    using s by (simp add: onDisconnect_def)
  have k: "\<not> isExpectedDisconnect (fst (Connect env ?c2))"
    using s by (simp add: Connect_def Let_def isExpectedDisconnect_def resetExpectedDisconnect_def
        doHandshake_def split: option.splits sum.splits prod.splits)
  have e1: "isExpectedDisconnect ?c1 = isExpectedDisconnect c"
    by (simp add: isExpectedDisconnect_def)
  show "handleStreamError del node c =
       (c\<lparr>IsLoggedIn := False\<rparr>,
        [Logged MainLog LInfo ''Got 515 code, reconnecting...'', Spawn GoReconnect515])
     \<and> reconnect515 env (c\<lparr>IsLoggedIn := False\<rparr>) =
         (fst (Connect env (fst (Disconnect (c\<lparr>IsLoggedIn := False\<rparr>)))),
          snd (Disconnect (c\<lparr>IsLoggedIn := False\<rparr>))
          @ snd (snd (Connect env (fst (Disconnect (c\<lparr>IsLoggedIn := False\<rparr>)))))
          @ (case fst (snd (Connect env (fst (Disconnect (c\<lparr>IsLoggedIn := False\<rparr>))))) of
               Some e \<Rightarrow> [Logged MainLog LError ''Failed to reconnect after 515 code:'']
             | None \<Rightarrow> []))
     \<and> isExpectedDisconnect (fst (handleStreamError del node c)) = isExpectedDisconnect c
     \<and> isExpectedDisconnect (fst (Disconnect (fst (handleStreamError del node c))))
         = isExpectedDisconnect c
     \<and> socket (fst (Disconnect (fst (handleStreamError del node c)))) = None
     \<and> (\<forall>ns remote.
           fst (onDisconnect ns remote (fst (Disconnect (fst (handleStreamError del node c)))))
             = fst (Disconnect (fst (handleStreamError del node c)))
           \<and> Spawn (GoDispatchEvent Disconnected)
               \<notin> set (snd (onDisconnect ns remote (fst (Disconnect (fst (handleStreamError del node c))))))
           \<and> Spawn GoAutoReconnect
               \<notin> set (snd (onDisconnect ns remote (fst (Disconnect (fst (handleStreamError del node c)))))))
     \<and> \<not> isExpectedDisconnect (fst (reconnect515 env (fst (handleStreamError del node c))))"
    unfolding h fst_conv using r s e o k e1 by simp
qed

theorem handleStreamError_515_witness:
  "attr_string_or_empty ex_node515 ''code'' = ''515''
   \<and> handleStreamError None ex_node515 ex_connected =
       (ex_connected\<lparr>IsLoggedIn := False\<rparr>,
        [Logged MainLog LInfo ''Got 515 code, reconnecting...'', Spawn GoReconnect515])
   \<and> reconnect515 ex_env_ok (ex_connected\<lparr>IsLoggedIn := False\<rparr>) =
       (ex_connected\<lparr>IsLoggedIn := False, socket := Some 8\<rparr>,
        [SocketStop 7 True, Spawn (GoKeepAliveLoop (Some 8)), Spawn (GoHandlerQueueLoop (Some 8))])
   \<and> Spawn (GoDispatchEvent Disconnected)
        \<notin> set (snd (onDisconnect 7 False (fst (Disconnect (fst (handleStreamError None ex_node515 ex_connected))))))"
  using handleStreamError_515[of ex_node515 None ex_connected ex_env_ok]
  by (simp add: ex_node515_def ex_connected_def ex_env_ok_def NewClient_def attr_string_or_empty_def
      Disconnect_def unlockedDisconnect_def Connect_def doHandshake_def resetExpectedDisconnect_def
      onDisconnect_def reconnect515_def Let_def)

text \<open>
  Claim C3 as stated fails: on a connected client whose flag is clear, the flag is still
  clear after the handler and when \<open>Disconnect\<close> stops the socket.
\<close>

theorem handleStreamError_515_flag_not_raised:
  "\<not> isExpectedDisconnect ex_connected
   \<and> snd (handleStreamError None ex_node515 ex_connected) =
       [Logged MainLog LInfo ''Got 515 code, reconnecting...'', Spawn GoReconnect515]
   \<and> \<not> isExpectedDisconnect (fst (handleStreamError None ex_node515 ex_connected))
   \<and> snd (Disconnect (fst (handleStreamError None ex_node515 ex_connected))) = [SocketStop 7 True]
   \<and> \<not> isExpectedDisconnect (fst (Disconnect (fst (handleStreamError None ex_node515 ex_connected))))"
  by (simp add: ex_node515_def ex_connected_def NewClient_def attr_string_or_empty_def
      handleStreamError_def Disconnect_def unlockedDisconnect_def isExpectedDisconnect_def Let_def)

lemma Disconnect_eq:
  "Disconnect c = (c\<lparr>socket := None\<rparr>, case socket c of None \<Rightarrow> [] | Some s \<Rightarrow> [SocketStop s True])"
  by (auto simp: Disconnect_def unlockedDisconnect_def split: option.splits)

lemma logout_query_tag: "map Tag (QContent (logout_query j)) = [''remove-companion-device'']"
  by (simp add: logout_query_def)

text \<open>
  Claim C7. Without a stored identity \<open>Logout\<close> returns \<open>ErrNotLoggedIn\<close> and does
  nothing. Otherwise it sends the \<open>remove-companion-device\<close> query. When that fails it
  returns the wrapped error, the client is unchanged and nothing but the query was done:
  no socket stop, no store deletion. When it succeeds the socket slot is emptied (the
  socket, if any, stopped), then \<open>Store.Delete\<close> is called; the result is that call's
  error, wrapped, or \<open>nil\<close> with the identity gone.
\<close>

theorem Logout_unlink_first:
  "(ID (Store c) = None \<longrightarrow> Logout sendIQ del c = (c, Some ErrNotLoggedIn, []))
   \<and> (\<forall>j. ID (Store c) = Some j \<longrightarrow>
         map Tag (QContent (logout_query j)) = [''remove-companion-device'']
         \<and> (\<forall>e. snd (sendIQ (logout_query j)) = Some e \<longrightarrow>
               Logout sendIQ del c =
                 (c, Some (Wrapped ''error sending logout request'' e), [SendIQ (logout_query j)]))
         \<and> (snd (sendIQ (logout_query j)) = None \<longrightarrow>
               fst (Logout sendIQ del c) = c\<lparr>socket := None, Store := fst (Store_Delete del (Store c))\<rparr>
               \<and> snd (snd (Logout sendIQ del c)) =
                   [SendIQ (logout_query j)]
                   @ (case socket c of None \<Rightarrow> [] | Some s \<Rightarrow> [SocketStop s True])
                   @ [StoreDelete]
               \<and> (del = None \<longrightarrow> fst (snd (Logout sendIQ del c)) = None
                                 \<and> ID (Store (fst (Logout sendIQ del c))) = None)
               \<and> (\<forall>e. del = Some e \<longrightarrow>
                     fst (snd (Logout sendIQ del c))
                       = Some (Wrapped ''error deleting data from store'' e))))"
  by (auto simp: Logout_def Let_def Disconnect_eq Store_Delete_def logout_query_tag
      split: option.splits)

theorem Logout_unlink_first_witness:
  "ID (Store ex_connected) = Some (UserJID ''12345'')
   \<and> snd (ex_sendIQ_timeout (logout_query (UserJID ''12345''))) = Some ErrIQTimedOut
   \<and> Logout ex_sendIQ_timeout None ex_connected =
       (ex_connected, Some (Wrapped ''error sending logout request'' ErrIQTimedOut),
        [SendIQ (logout_query (UserJID ''12345''))])
   \<and> snd (ex_sendIQ_ok (logout_query (UserJID ''12345''))) = None
   \<and> Logout ex_sendIQ_ok None ex_connected =
       (ex_connected\<lparr>socket := None, Store := \<lparr>ID = None\<rparr>\<rparr>, None,
        [SendIQ (logout_query (UserJID ''12345'')), SocketStop 7 True, StoreDelete])
   \<and> Logout ex_sendIQ_ok None (NewClient \<lparr>ID = None\<rparr> 1 2)
       = (NewClient \<lparr>ID = None\<rparr> 1 2, Some ErrNotLoggedIn, [])"
  using Logout_unlink_first[of ex_connected ex_sendIQ_timeout None]
    Logout_unlink_first[of ex_connected ex_sendIQ_ok None]
    Logout_unlink_first[of "NewClient \<lparr>ID = None\<rparr> 1 2" ex_sendIQ_ok None]
  by (simp add: ex_connected_def NewClient_def ex_sendIQ_timeout_def ex_sendIQ_ok_def
      Store_Delete_def prod_eq_iff)

section \<open>Properties of request ids\<close>

lemma digit_inj: "a < 10 \<Longrightarrow> b < 10 \<Longrightarrow> digit a = digit b \<Longrightarrow> a = b"
proof -
  assume a: "a < 10" and b: "b < 10" and e: "digit a = digit b"
  have d: "distinct ''0123456789''" by simp
  have l: "length ''0123456789'' = 10" by simp
  from e have "''0123456789'' ! a = ''0123456789'' ! b" by (simp only: digit_def)
  with d a b l show "a = b" by (simp only: nth_eq_iff_index_eq)
qed

lemma decimal_nonempty: "decimal n \<noteq> []"
  by (subst decimal.simps) simp

lemma decimal_small: "n < 10 \<Longrightarrow> decimal n = [digit n]"
  by (subst decimal.simps) simp

lemma decimal_large: "\<not> n < 10 \<Longrightarrow> decimal n = decimal (n div 10) @ [digit (n mod 10)]"
  by (subst decimal.simps) simp

lemma decimal_inj: "decimal n = decimal m \<Longrightarrow> n = m"
proof (induction n arbitrary: m rule: decimal.induct)
  case (1 n)
  show ?case
  proof (cases "n < 10")
    case n: True
    show ?thesis
    proof (cases "m < 10")
      case True
      with n "1.prems" show ?thesis by (simp add: decimal_small digit_inj)
    next
      case False
      with n "1.prems" have "[digit n] = decimal (m div 10) @ [digit (m mod 10)]"
        by (simp add: decimal_small decimal_large)
      then have "decimal (m div 10) = []" by simp
      with decimal_nonempty show ?thesis by blast
    qed
  next
    case n: False
    show ?thesis
    proof (cases "m < 10")
      case True
      with n "1.prems" have "decimal (n div 10) @ [digit (n mod 10)] = [digit m]"
        by (simp add: decimal_small decimal_large)
      then have "decimal (n div 10) = []" by simp
      with decimal_nonempty show ?thesis by blast
    next
      case False
      with n "1.prems" have "decimal (n div 10) @ [digit (n mod 10)] = decimal (m div 10) @ [digit (m mod 10)]"
        by (simp add: decimal_large)
      then have a: "decimal (n div 10) = decimal (m div 10)" and b: "digit (n mod 10) = digit (m mod 10)"
        by simp_all
      from "1.IH"[OF n a] have "n div 10 = m div 10" .
      moreover from b have "n mod 10 = m mod 10" by (intro digit_inj) simp_all
      ultimately show ?thesis by (metis div_mult_mod_eq)
    qed
  qed
qed

lemma request_ids_eq:
  "request_ids n c = map (\<lambda>k. uniqueID c @ decimal (unat (idCounter c + of_nat (Suc k)))) [0..<n]"
proof (induction n arbitrary: c)
  case 0
  show ?case by simp
next
  case (Suc n)
  have "request_ids (Suc n) c =
          (uniqueID c @ decimal (unat (idCounter c + 1))) # request_ids n (c\<lparr>idCounter := idCounter c + 1\<rparr>)"
    by (simp add: generateRequestID_def Let_def)
  also have "request_ids n (c\<lparr>idCounter := idCounter c + 1\<rparr>) =
      map (\<lambda>k. uniqueID c @ decimal (unat (idCounter c + of_nat (Suc (Suc k))))) [0..<n]"
    by (simp add: Suc.IH add.assoc)
  also have "\<dots> = map (\<lambda>k. uniqueID c @ decimal (unat (idCounter c + of_nat (Suc k)))) (map Suc [0..<n])"
    by simp
  finally show ?case
    by (simp only: map_Suc_upt upt_conv_Cons[of 0 "Suc n"] list.map) simp
qed

lemma counter_inj:
  fixes x :: "64 word"
  assumes "Suc a < 2 ^ 64" "Suc b < 2 ^ 64" "unat (x + of_nat (Suc a)) = unat (x + of_nat (Suc b))"
  shows "a = b"
proof -
  from assms(3) have "x + of_nat (Suc a) = x + of_nat (Suc b)" by (simp only: word_unat_eq_iff)
  then have "(of_nat (Suc a) :: 64 word) = of_nat (Suc b)" by simp
  then have "unat (of_nat (Suc a) :: 64 word) = unat (of_nat (Suc b) :: 64 word)" by simp
  with assms(1,2) show ?thesis by (simp add: unat_of_nat del: of_nat_Suc)
qed

lemma request_ids_distinct: "n < 2 ^ 64 \<Longrightarrow> distinct (request_ids n c)"
proof -
  assume n: "n < 2 ^ 64"
  have "inj_on (\<lambda>k. uniqueID c @ decimal (unat (idCounter c + of_nat (Suc k)))) (set [0..<n])"
  proof (rule inj_onI)
    fix a b assume a: "a \<in> set [0..<n]" and b: "b \<in> set [0..<n]"
      and e: "uniqueID c @ decimal (unat (idCounter c + of_nat (Suc a)))
              = uniqueID c @ decimal (unat (idCounter c + of_nat (Suc b)))"
    from e have "unat (idCounter c + of_nat (Suc a)) = unat (idCounter c + of_nat (Suc b))"
      by (simp only: same_append_eq decimal_inj)
    moreover from a b n have "Suc a < 2 ^ 64" "Suc b < 2 ^ 64" by simp_all
    ultimately show "a = b" by (rule counter_inj[rotated 2])
  qed
  then show ?thesis by (simp only: request_ids_eq distinct_map distinct_upt simp_thms)
qed

text \<open>
  Claim C4, as the code has it. The prefix set by \<open>NewClient\<close> is the two random bytes in
  decimal, separated by a dot and followed by a dash; generating a request id leaves the
  prefix as it is; each id is the prefix followed by the decimal value of the incremented
  64-bit counter; and the ids of fewer than \<open>2 ^ 64\<close> successive calls are pairwise distinct.
\<close>

theorem request_ids_unique:
  "uniqueID (NewClient deviceStore b0 b1) = decimal (unat b0) @ ''.'' @ decimal (unat b1) @ ''-''
   \<and> uniqueID (fst (generateRequestID c)) = uniqueID c
   \<and> idCounter (fst (generateRequestID c)) = idCounter c + 1
   \<and> snd (generateRequestID c) = uniqueID c @ decimal (unat (idCounter c + 1))
   \<and> (\<forall>k<n. request_ids n c ! k = uniqueID c @ decimal (unat (idCounter c + of_nat (Suc k))))
   \<and> (n < 2 ^ 64 \<longrightarrow> distinct (request_ids n c))"
proof (intro conjI allI impI)
  show "uniqueID (NewClient deviceStore b0 b1) = decimal (unat b0) @ ''.'' @ decimal (unat b1) @ ''-''"
    by (simp add: NewClient_def)
  show "uniqueID (fst (generateRequestID c)) = uniqueID c"
    and "idCounter (fst (generateRequestID c)) = idCounter c + 1"
    and "snd (generateRequestID c) = uniqueID c @ decimal (unat (idCounter c + 1))"
    by (simp_all add: generateRequestID_def Let_def)
next
  fix k assume "k < n"
  then show "request_ids n c ! k = uniqueID c @ decimal (unat (idCounter c + of_nat (Suc k)))"
    by (simp only: request_ids_eq nth_map length_upt nth_upt) simp
next
  assume "n < 2 ^ 64"
  then show "distinct (request_ids n c)" by (rule request_ids_distinct)
qed



theorem request_ids_unique_witness:
  "(3::nat) < 2 ^ 64
   \<and> uniqueID (NewClient \<lparr>ID = None\<rparr> 255 16) = ''255.16-''
   \<and> request_ids 3 (NewClient \<lparr>ID = None\<rparr> 255 16) = [''255.16-1'', ''255.16-2'', ''255.16-3'']
   \<and> distinct (request_ids 3 (NewClient \<lparr>ID = None\<rparr> 255 16))"
proof -
  have b: "(3::nat) < 2 ^ 64" by simp
  have u: "uniqueID (NewClient \<lparr>ID = None\<rparr> 255 16) = ''255.16-''"
    by (simp add: NewClient_def decimal_small decimal_large digit_def)
  have r: "request_ids 3 (NewClient \<lparr>ID = None\<rparr> 255 16) = [''255.16-1'', ''255.16-2'', ''255.16-3'']"
    by code_simp
  from b request_ids_unique[of "\<lparr>ID = None\<rparr>" 255 16 "NewClient \<lparr>ID = None\<rparr> 255 16" 3]
  have "distinct (request_ids 3 (NewClient \<lparr>ID = None\<rparr> 255 16))" by blast
  with b u r show ?thesis by blast
qed

text \<open>
  Claim C4 as stated fails: for the bytes 255 and 16 the prefix is \<open>255.16-\<close>, not the hex
  encoding \<open>ff10\<close>.
\<close>

theorem uniqueID_not_hex:
  "uniqueID (NewClient \<lparr>ID = None\<rparr> 255 16) = ''255.16-''
   \<and> spec_unique_prefix 255 16 = ''ff10''
   \<and> uniqueID (NewClient \<lparr>ID = None\<rparr> 255 16) \<noteq> spec_unique_prefix 255 16"
  by (simp add: NewClient_def decimal_small decimal_large digit_def spec_unique_prefix_def
      hex_encode_def hex_digit_def)

section \<open>Properties of the inbound router\<close>

text \<open>
  Claim C5, as the code has it. For a frame that decodes to a node whose tag is not
  \<open>xmlstreamend\<close>: a node whose \<open>id\<close> matches an outstanding waiter is sent to that waiter,
  whose entry is removed, and is not queued; a node matching no waiter whose tag has a
  handler is appended to the handler queue when the queue has room, and otherwise a warning
  is logged and a goroutine is started whose send completes once there is room; any other
  node is dropped with a debug log.
\<close>

theorem handleFrame_dispatch:
  "Unpack data = Inr d \<longrightarrow> Unmarshal d = Inr node \<longrightarrow> Tag node \<noteq> ''xmlstreamend'' \<longrightarrow>
     (\<forall>i w. map_of (Attrs node) ''id'' = Some (AString i) \<longrightarrow>
            map_of (responseWaiters c) i = Some w \<longrightarrow>
            handleFrame Unpack Unmarshal data c =
              (c\<lparr>responseWaiters := filter (\<lambda>(k, v). k \<noteq> i) (responseWaiters c)\<rparr>,
               [Logged RecvLog LDebug ''%s'', ChanSend w (Some node)]))
     \<and> ((\<forall>i. map_of (Attrs node) ''id'' = Some (AString i) \<longrightarrow>
              map_of (responseWaiters c) i = None) \<longrightarrow>
          (nodeHandlers c (Tag node) \<noteq> None \<longrightarrow> length (handlerQueue c) < handlerQueueSize \<longrightarrow>
             handleFrame Unpack Unmarshal data c =
               (c\<lparr>handlerQueue := handlerQueue c @ [node]\<rparr>, [Logged RecvLog LDebug ''%s'']))
          \<and> (nodeHandlers c (Tag node) \<noteq> None \<longrightarrow> \<not> length (handlerQueue c) < handlerQueueSize \<longrightarrow>
               handleFrame Unpack Unmarshal data c =
                 (c, [Logged RecvLog LDebug ''%s'',
                      Logged MainLog LWarn
                        ''Handler queue is full, message ordering is no longer guaranteed'',
                      Spawn (GoBlockingPush node)])
               \<and> blocking_push node c = None
               \<and> (\<forall>c'. length (handlerQueue c') < handlerQueueSize \<longrightarrow>
                      blocking_push node c' = Some (c'\<lparr>handlerQueue := handlerQueue c' @ [node]\<rparr>)))
          \<and> (nodeHandlers c (Tag node) = None \<longrightarrow>
               handleFrame Unpack Unmarshal data c =
                 (c, [Logged RecvLog LDebug ''%s'',
                      Logged MainLog LDebug ''Didn't handle WhatsApp node''])))"
proof (intro impI conjI allI)
  fix i w
  assume "Unpack data = Inr d" "Unmarshal d = Inr node" "Tag node \<noteq> ''xmlstreamend''"
    "map_of (Attrs node) ''id'' = Some (AString i)" "map_of (responseWaiters c) i = Some w"
  then show "handleFrame Unpack Unmarshal data c =
              (c\<lparr>responseWaiters := filter (\<lambda>(k, v). k \<noteq> i) (responseWaiters c)\<rparr>,
               [Logged RecvLog LDebug ''%s'', ChanSend w (Some node)])"
    by (simp add: handleFrame_def receiveResponse_def)
next
  assume a: "Unpack data = Inr d" "Unmarshal d = Inr node" "Tag node \<noteq> ''xmlstreamend''"
    and nw: "\<forall>i. map_of (Attrs node) ''id'' = Some (AString i) \<longrightarrow> map_of (responseWaiters c) i = None"
  from nw have r: "receiveResponse node c = (c, False, [])"
    by (auto simp: receiveResponse_def split: option.splits attr_value.splits)
  {
    assume "nodeHandlers c (Tag node) \<noteq> None" "length (handlerQueue c) < handlerQueueSize"
    with a r show "handleFrame Unpack Unmarshal data c =
               (c\<lparr>handlerQueue := handlerQueue c @ [node]\<rparr>, [Logged RecvLog LDebug ''%s''])"
      by (simp add: handleFrame_def)
  next
    assume f: "nodeHandlers c (Tag node) \<noteq> None" "\<not> length (handlerQueue c) < handlerQueueSize"
    with a r show "handleFrame Unpack Unmarshal data c =
                 (c, [Logged RecvLog LDebug ''%s'',
                      Logged MainLog LWarn
                        ''Handler queue is full, message ordering is no longer guaranteed'',
                      Spawn (GoBlockingPush node)])"
      by (simp add: handleFrame_def)
    from f show "blocking_push node c = None" by (simp add: blocking_push_def)
  next
    fix c' :: Client
    assume "length (handlerQueue c') < handlerQueueSize"
    then show "blocking_push node c' = Some (c'\<lparr>handlerQueue := handlerQueue c' @ [node]\<rparr>)"
      by (simp add: blocking_push_def)
  next
    assume "nodeHandlers c (Tag node) = None"
    with a r show "handleFrame Unpack Unmarshal data c =
                 (c, [Logged RecvLog LDebug ''%s'',
                      Logged MainLog LDebug ''Didn't handle WhatsApp node''])"
      by (simp add: handleFrame_def)
  }
qed


lemmas ex_frame_defs =
  ex_Unpack_def ex_Unmarshal_def ex_iq_reply_def ex_message_def ex_presence_def ex_streamend_def
  ex_connected_def ex_full_def NewClient_def handlerQueueSize_def

theorem handleFrame_dispatch_witness:
  "ex_Unpack [1] = Inr [1] \<and> ex_Unmarshal [1] = Inr ex_iq_reply
   \<and> Tag ex_iq_reply \<noteq> ''xmlstreamend''
   \<and> handleFrame ex_Unpack ex_Unmarshal [1] ex_connected =
       (ex_connected\<lparr>responseWaiters := [(''255.16-2'', 5)]\<rparr>,
        [Logged RecvLog LDebug ''%s'', ChanSend 4 (Some ex_iq_reply)])
   \<and> handleFrame ex_Unpack ex_Unmarshal [2] ex_connected =
       (ex_connected\<lparr>handlerQueue := [ex_message]\<rparr>, [Logged RecvLog LDebug ''%s''])
   \<and> handleFrame ex_Unpack ex_Unmarshal [2] ex_full =
       (ex_full, [Logged RecvLog LDebug ''%s'',
                  Logged MainLog LWarn
                    ''Handler queue is full, message ordering is no longer guaranteed'',
                  Spawn (GoBlockingPush ex_message)])
   \<and> handleFrame ex_Unpack ex_Unmarshal [3] ex_connected =
       (ex_connected, [Logged RecvLog LDebug ''%s'',
                       Logged MainLog LDebug ''Didn't handle WhatsApp node''])"
proof -
  have d: "ex_Unpack [1] = Inr [1]" "ex_Unmarshal [1] = Inr ex_iq_reply"
    "Tag ex_iq_reply \<noteq> ''xmlstreamend''"
    by (simp_all add: ex_frame_defs)
  have 1: "handleFrame ex_Unpack ex_Unmarshal [1] ex_connected =
       (ex_connected\<lparr>responseWaiters := [(''255.16-2'', 5)]\<rparr>,
        [Logged RecvLog LDebug ''%s'', ChanSend 4 (Some ex_iq_reply)])"
    using handleFrame_dispatch[of ex_Unpack "[1]" "[1]" ex_Unmarshal ex_iq_reply ex_connected]
    by (simp add: ex_frame_defs)
  have 2: "handleFrame ex_Unpack ex_Unmarshal [2] ex_connected =
       (ex_connected\<lparr>handlerQueue := [ex_message]\<rparr>, [Logged RecvLog LDebug ''%s''])"
    using handleFrame_dispatch[of ex_Unpack "[2]" "[2]" ex_Unmarshal ex_message ex_connected]
    by (simp add: ex_frame_defs)
  have 3: "handleFrame ex_Unpack ex_Unmarshal [2] ex_full =
       (ex_full, [Logged RecvLog LDebug ''%s'',
                  Logged MainLog LWarn
                    ''Handler queue is full, message ordering is no longer guaranteed'',
                  Spawn (GoBlockingPush ex_message)])"
    using handleFrame_dispatch[of ex_Unpack "[2]" "[2]" ex_Unmarshal ex_message ex_full]
    by (simp add: ex_frame_defs)
  have 4: "handleFrame ex_Unpack ex_Unmarshal [3] ex_connected =
       (ex_connected, [Logged RecvLog LDebug ''%s'',
                       Logged MainLog LDebug ''Didn't handle WhatsApp node''])"
    using handleFrame_dispatch[of ex_Unpack "[3]" "[3]" ex_Unmarshal ex_presence ex_connected]
    by (simp add: ex_frame_defs)
  from d 1 2 3 4 show ?thesis by blast
qed

text \<open>
  Claim C5 as stated fails: a decoded node with tag \<open>xmlstreamend\<close> whose \<open>id\<close> matches an
  outstanding waiter is not delivered; it is logged and the waiter stays.
\<close>

theorem handleFrame_streamend_not_delivered:
  "ex_Unpack [4] = Inr [4] \<and> ex_Unmarshal [4] = Inr ex_streamend
   \<and> map_of (Attrs ex_streamend) ''id'' = Some (AString ''255.16-1'')
   \<and> map_of (responseWaiters ex_connected) ''255.16-1'' = Some 4
   \<and> handleFrame ex_Unpack ex_Unmarshal [4] ex_connected =
       (ex_connected, [Logged RecvLog LDebug ''%s'',
                       Logged MainLog LWarn ''Received stream end frame''])"
  by (simp add: ex_frame_defs handleFrame_def isExpectedDisconnect_def)

section \<open>Properties of profile picture queries\<close>

lemma GetChildByTag_found:
  "find (\<lambda>ch. Tag ch = tag) (GetChildren r) = Some ch \<Longrightarrow> GetChildByTag r tag = ch"
  by (simp add: GetChildByTag_def GetOptionalChildByTag_def)

text \<open>
  What \<open>GetProfilePictureInfo\<close> does on a failed query when the assertion on the code
  succeeds: 404 gives no picture and no error, 401 gives \<open>ErrProfilePictureUnauthorized\<close>,
  any other string code and any error that is not an IQ error give the error itself.
\<close>

lemma GetProfilePictureInfo_failure:
  assumes "snd (sendIQ \<lparr>Namespace = ''w:profile:picture'', Type = ''get'', To = j,
             QContent = [Node ''picture'' [(''query'', AString ''url''),
               (''type'', AString (if preview then ''preview'' else ''image''))] CNil]\<rparr>) = Some e"
  shows "(\<not> errors_Is e ErrIQError \<longrightarrow>
            GetProfilePictureInfo sendIQ j preview = Returned (None, Some e))
         \<and> (\<forall>r code. errors_Is e ErrIQError \<longrightarrow>
               fst (sendIQ \<lparr>Namespace = ''w:profile:picture'', Type = ''get'', To = j,
                 QContent = [Node ''picture'' [(''query'', AString ''url''),
                   (''type'', AString (if preview then ''preview'' else ''image''))] CNil]\<rparr>) = Some r \<longrightarrow>
               map_of (Attrs (GetChildByTag r ''error'')) ''code'' = Some (AString code) \<longrightarrow>
               GetProfilePictureInfo sendIQ j preview =
                 (if code = ''404'' then Returned (None, None)
                  else if code = ''401'' then Returned (None, Some ErrProfilePictureUnauthorized)
                  else Returned (None, Some e)))"
  using assms by (auto simp: GetProfilePictureInfo_def Let_def split: prod.splits)

text \<open>
  Claim C10 against the code: an IQ error whose \<open>error\<close> child has no \<open>code\<close> attribute is
  a failure that is neither 404 nor 401, and \<open>GetProfilePictureInfo\<close> does not return the
  underlying error for it: the type assertion \<open>.(string)\<close> panics.
\<close>

theorem GetProfilePictureInfo_missing_code_panics:
  "ex_sendIQ_error_nocode
      \<lparr>Namespace = ''w:profile:picture'', Type = ''get'', To = UserJID ''12345'',
       QContent = [Node ''picture'' [(''query'', AString ''url''), (''type'', AString ''image'')] CNil]\<rparr>
     = (Some ex_iq_error_nocode, Some ErrIQError)
   \<and> GetChildByTag ex_iq_error_nocode ''error'' = Node ''error'' [(''text'', AString ''item-not-found'')] CNil
   \<and> GetProfilePictureInfo ex_sendIQ_error_nocode (UserJID ''12345'') False
       = Panicked ''interface conversion: interface {} is not string''
   \<and> GetProfilePictureInfo ex_sendIQ_error_nocode (UserJID ''12345'') False
       \<noteq> Returned (None, Some ErrIQError)"
  by (simp add: ex_sendIQ_error_nocode_def ex_iq_error_nocode_def GetProfilePictureInfo_def
      GetChildByTag_def GetOptionalChildByTag_def GetChildren_def)

section \<open>Properties of auto-reconnect\<close>

lemma sleeps_simps [simp]:
  "sleeps [] = []"
  "sleeps (es @ es') = sleeps es @ sleeps es'"
  "sleeps (Slept d # es) = d # sleeps es"
  "sleeps (Logged l v m # es) = sleeps es"
  "sleeps (Spawn t # es) = sleeps es"
  "sleeps (SocketStop s b # es) = sleeps es"
  "sleeps (FrameSocketClose # es) = sleeps es"
  by (simp_all add: sleeps_def)

lemma unlockedDisconnect_sleeps: "sleeps (snd (unlockedDisconnect c)) = []"
  by (simp add: unlockedDisconnect_def split: option.splits)

lemma Connect_refused:
  assumes "connect_refused env"
  shows "\<exists>c2 e es. Connect env c = (c2, Some e, es) \<and> \<not> errors_Is e ErrAlreadyConnected
           \<and> AutoReconnectErrors c2 = AutoReconnectErrors c \<and> sleeps es = []"
  using assms
  by (auto simp: connect_refused_def Connect_def Let_def doHandshake_def unlockedDisconnect_def
      resetExpectedDisconnect_def split: option.splits sum.splits prod.splits)

lemma Connect_accepted:
  assumes "connect_accepted env"
  shows "\<exists>c2 r es. Connect env c = (c2, r, es) \<and> (r = None \<or> r = Some ErrAlreadyConnected)
           \<and> AutoReconnectErrors c2 = AutoReconnectErrors c \<and> sleeps es = []"
  using assms
  by (auto simp: connect_accepted_def Connect_def Let_def doHandshake_def unlockedDisconnect_def
      resetExpectedDisconnect_def split: option.splits sum.splits prod.splits)

lemma autoReconnect_loop_refused:
  "\<forall>env\<in>set envs. connect_refused env \<Longrightarrow> autoReconnect_loop envs c = None"
proof (induction envs arbitrary: c)
  case Nil
  show ?case by simp
next
  case (Cons env envs)
  let ?c1 = "c\<lparr>AutoReconnectErrors := AutoReconnectErrors c + 1\<rparr>"
  from Cons.prems have "connect_refused env" by simp
  from Connect_refused[OF this, of ?c1] obtain c2 e es where
    k: "Connect env ?c1 = (c2, Some e, es)" "\<not> errors_Is e ErrAlreadyConnected" by blast
  from Cons.prems have "autoReconnect_loop envs c2 = None" by (intro Cons.IH) simp
  with k show ?case by (simp add: Let_def)
qed

lemma autoReconnect_loop_exit:
  assumes "\<forall>e\<in>set fails. connect_refused e" and "connect_accepted env"
  shows "\<exists>c' es. autoReconnect_loop (fails @ env # rest) c = Some (c', es)
           \<and> AutoReconnectErrors c' = AutoReconnectErrors c + of_nat (length fails + 1)
           \<and> sleeps es = map (\<lambda>i. autoReconnectDelay (AutoReconnectErrors c + of_nat (Suc i)))
                            [0..<length fails + 1]"
  using assms(1)
proof (induction fails arbitrary: c)
  case Nil
  let ?c1 = "c\<lparr>AutoReconnectErrors := AutoReconnectErrors c + 1\<rparr>"
  from Connect_accepted[OF assms(2), of ?c1] obtain c2 r es where
    k: "Connect env ?c1 = (c2, r, es)" "r = None \<or> r = Some ErrAlreadyConnected"
       "AutoReconnectErrors c2 = AutoReconnectErrors ?c1" "sleeps es = []" by blast
  then show ?case by (auto simp: Let_def)
next
  case (Cons f fails)
  let ?c1 = "c\<lparr>AutoReconnectErrors := AutoReconnectErrors c + 1\<rparr>"
  from Cons.prems have "connect_refused f" by simp
  from Connect_refused[OF this, of ?c1] obtain c2 e es where
    k: "Connect f ?c1 = (c2, Some e, es)" "\<not> errors_Is e ErrAlreadyConnected"
       "AutoReconnectErrors c2 = AutoReconnectErrors ?c1" "sleeps es = []" by blast
  from Cons.prems have "\<forall>e\<in>set fails. connect_refused e" by simp
  from Cons.IH[OF this, of c2] obtain c' es' where
    i: "autoReconnect_loop (fails @ env # rest) c2 = Some (c', es')"
       "AutoReconnectErrors c' = AutoReconnectErrors c2 + of_nat (length fails + 1)"
       "sleeps es' = map (\<lambda>i. autoReconnectDelay (AutoReconnectErrors c2 + of_nat (Suc i)))
                            [0..<length fails + 1]" by blast
  have m: "map (\<lambda>i. autoReconnectDelay (AutoReconnectErrors c + of_nat (Suc i))) [0..<length (f # fails) + 1]
        = autoReconnectDelay (AutoReconnectErrors c + 1)
          # map (\<lambda>i. autoReconnectDelay (AutoReconnectErrors c + 1 + of_nat (Suc i))) [0..<length fails + 1]"
  proof -
    have "[0..<length (f # fails) + 1] = 0 # [Suc 0..<Suc (length fails + 1)]"
      by (subst upt_conv_Cons) simp_all
    also have "[Suc 0..<Suc (length fails + 1)] = map Suc [0..<length fails + 1]"
      by (simp only: map_Suc_upt)
    finally have "[0..<length (f # fails) + 1] = 0 # map Suc [0..<length fails + 1]" .
    then show ?thesis by (simp add: comp_def ac_simps del: upt_Suc)
  qed
  from k i have "autoReconnect_loop ((f # fails) @ env # rest) c =
      Some (c', [Logged MainLog LDebug ''Automatically reconnecting after %v'',
                 Slept (autoReconnectDelay (AutoReconnectErrors c + 1))] @ es @
                [Logged MainLog LError ''Error reconnecting after autoreconnect sleep: %v''] @ es')"
    by (simp add: Let_def)
  moreover from k i have "AutoReconnectErrors c' = AutoReconnectErrors c + of_nat (length (f # fails) + 1)"
    by (simp add: add.assoc)
  ultimately show ?case using k(3,4) i(3) m by (simp del: upt_Suc of_nat_Suc)
qed

lemma autoReconnectDelay_seconds:
  assumes "0 \<le> sint n" "sint n \<le> 4611686018"
  shows "sint (autoReconnectDelay n) = sint n * 2 * 1000000000"
proof -
  have "autoReconnectDelay n = n * 2000000000" by (simp add: autoReconnectDelay_def)
  then have "sint (autoReconnectDelay n) = signed_take_bit 63 (sint n * 2000000000)"
    by (simp add: sint_word_ariths)
  also have "\<dots> = sint n * 2000000000"
    using assms by (intro signed_take_bit_int_eq_self) simp_all
  finally show ?thesis by simp
qed


lemma autoReconnect_already_connected:
  assumes "socket c \<noteq> None" "old_IsConnected env"
  shows "autoReconnect_loop (env # rest) c =
           Some (c\<lparr>AutoReconnectErrors := AutoReconnectErrors c + 1\<rparr>,
                 [Logged MainLog LDebug ''Automatically reconnecting after %v'',
                  Slept (autoReconnectDelay (AutoReconnectErrors c + 1)),
                  Logged MainLog LDebug
                    ''Connect() said we're already connected after autoreconnect sleep''])"
  using assms by (simp add: Connect_def Let_def)

text \<open>
  Claim C6. \<open>autoReconnect\<close> does nothing when auto-reconnect is disabled or the store has
  no identity. Otherwise, against any answers of the outside world: as long as every
  \<open>Connect\<close> fails with an error other than \<open>ErrAlreadyConnected\<close> the loop does not return;
  when the attempts before one that is accepted all fail so, the loop returns at that
  attempt, the counter has grown by the number of attempts, and the sleeps are, in order,
  those of the counter values \<open>n + 1, n + 2, ...\<close>; when \<open>Connect\<close> reports a live socket the
  loop returns after that one attempt. The sleep for counter value \<open>n\<close> is \<open>n * 2\<close> seconds,
  in nanoseconds, for every \<open>n\<close> whose product does not leave the 64-bit \<open>Duration\<close>. Handling
  a \<open>success\<close> node sets the counter to zero.
\<close>

theorem autoReconnect_behaviour:
  "(\<not> EnableAutoReconnect c \<or> ID (Store c) = None \<longrightarrow> autoReconnect envs c = Some (c, []))
   \<and> (EnableAutoReconnect c \<longrightarrow> ID (Store c) \<noteq> None \<longrightarrow>
        ((\<forall>env\<in>set envs. connect_refused env) \<longrightarrow> autoReconnect envs c = None)
        \<and> (\<forall>fails env rest.
              envs = fails @ env # rest \<longrightarrow> (\<forall>e\<in>set fails. connect_refused e) \<longrightarrow>
              connect_accepted env \<longrightarrow>
              (\<exists>c' es. autoReconnect envs c = Some (c', es)
                 \<and> AutoReconnectErrors c' = AutoReconnectErrors c + of_nat (length fails + 1)
                 \<and> sleeps es =
                     map (\<lambda>i. autoReconnectDelay (AutoReconnectErrors c + of_nat (Suc i)))
                       [0..<length fails + 1]))
        \<and> (\<forall>env rest.
              envs = env # rest \<longrightarrow> socket c \<noteq> None \<longrightarrow> old_IsConnected env \<longrightarrow>
              autoReconnect envs c =
                Some (c\<lparr>AutoReconnectErrors := AutoReconnectErrors c + 1\<rparr>,
                      [Logged MainLog LDebug ''Automatically reconnecting after %v'',
                       Slept (autoReconnectDelay (AutoReconnectErrors c + 1)),
                       Logged MainLog LDebug
                         ''Connect() said we're already connected after autoreconnect sleep''])))
   \<and> (0 \<le> sint n \<longrightarrow> sint n \<le> 4611686018 \<longrightarrow>
        sint (autoReconnectDelay n) = sint n * 2 * 1000000000)
   \<and> AutoReconnectErrors (fst (handleConnectSuccess now node c)) = 0"
proof (intro conjI impI allI)
  assume "\<not> EnableAutoReconnect c \<or> ID (Store c) = None"
  then show "autoReconnect envs c = Some (c, [])" by (auto simp: autoReconnect_def)
next
  assume on: "EnableAutoReconnect c" "ID (Store c) \<noteq> None"
  then have eq: "\<And>es. autoReconnect es c = autoReconnect_loop es c"
    by (auto simp: autoReconnect_def)
  {
    assume "\<forall>env\<in>set envs. connect_refused env"
    then show "autoReconnect envs c = None" by (simp add: eq autoReconnect_loop_refused)
  next
    fix fails env rest
    assume "envs = fails @ env # rest" "\<forall>e\<in>set fails. connect_refused e" "connect_accepted env"
    with autoReconnect_loop_exit[of fails env rest c]
    show "\<exists>c' es. autoReconnect envs c = Some (c', es)
                 \<and> AutoReconnectErrors c' = AutoReconnectErrors c + of_nat (length fails + 1)
                 \<and> sleeps es =
                     map (\<lambda>i. autoReconnectDelay (AutoReconnectErrors c + of_nat (Suc i)))
                       [0..<length fails + 1]"
      by (simp only: eq)
  next
    fix env rest
    assume e: "envs = env # rest" and s: "socket c \<noteq> None" and o: "old_IsConnected env"
    from autoReconnect_already_connected[OF s o, of rest] e show "autoReconnect envs c =
                Some (c\<lparr>AutoReconnectErrors := AutoReconnectErrors c + 1\<rparr>,
                      [Logged MainLog LDebug ''Automatically reconnecting after %v'',
                       Slept (autoReconnectDelay (AutoReconnectErrors c + 1)),
                       Logged MainLog LDebug
                         ''Connect() said we're already connected after autoreconnect sleep''])"
      by (simp only: eq)
  }
next
  assume "0 \<le> sint n" "sint n \<le> 4611686018"
  then show "sint (autoReconnectDelay n) = sint n * 2 * 1000000000"
    by (rule autoReconnectDelay_seconds)
next
  show "AutoReconnectErrors (fst (handleConnectSuccess now node c)) = 0"
    by (simp add: handleConnectSuccess_def)
qed

lemmas ex_reconnect_defs =
  ex_paired_def ex_env_fail_def ex_env_ok_def NewClient_def autoReconnect_def Connect_def
  doHandshake_def resetExpectedDisconnect_def autoReconnectDelay_def Let_def

theorem autoReconnect_behaviour_witness:
  "EnableAutoReconnect ex_paired \<and> ID (Store ex_paired) \<noteq> None
   \<and> connect_refused ex_env_fail \<and> connect_accepted ex_env_ok
   \<and> autoReconnect [ex_env_fail, ex_env_fail] ex_paired = None
   \<and> autoReconnect [ex_env_fail, ex_env_ok] ex_paired =
       Some (ex_paired\<lparr>AutoReconnectErrors := 2, socket := Some 8\<rparr>,
             [Logged MainLog LDebug ''Automatically reconnecting after %v'',
              Slept 2000000000,
              FrameSocketClose,
              Logged MainLog LError ''Error reconnecting after autoreconnect sleep: %v'',
              Logged MainLog LDebug ''Automatically reconnecting after %v'',
              Slept 4000000000,
              Spawn (GoKeepAliveLoop (Some 8)), Spawn (GoHandlerQueueLoop (Some 8))])
   \<and> sint (autoReconnectDelay 2) = 2 * 2 * 1000000000
   \<and> autoReconnect [ex_env_ok] (NewClient \<lparr>ID = None\<rparr> 255 16)
       = Some (NewClient \<lparr>ID = None\<rparr> 255 16, [])"
proof -
  have a: "EnableAutoReconnect ex_paired" "ID (Store ex_paired) \<noteq> None"
    "connect_refused ex_env_fail" "connect_accepted ex_env_ok"
    by (simp_all add: ex_reconnect_defs connect_refused_def connect_accepted_def)
  have n: "autoReconnect [ex_env_fail, ex_env_fail] ex_paired = None"
    using a autoReconnect_behaviour[of ex_paired "[ex_env_fail, ex_env_fail]"] by simp
  have e: "autoReconnect [ex_env_fail, ex_env_ok] ex_paired =
       Some (ex_paired\<lparr>AutoReconnectErrors := 2, socket := Some 8\<rparr>,
             [Logged MainLog LDebug ''Automatically reconnecting after %v'',
              Slept 2000000000,
              FrameSocketClose,
              Logged MainLog LError ''Error reconnecting after autoreconnect sleep: %v'',
              Logged MainLog LDebug ''Automatically reconnecting after %v'',
              Slept 4000000000,
              Spawn (GoKeepAliveLoop (Some 8)), Spawn (GoHandlerQueueLoop (Some 8))])"
    by (simp add: ex_reconnect_defs)
  have d: "sint (autoReconnectDelay 2) = 2 * 2 * 1000000000"
    using autoReconnect_behaviour[of ex_paired "[]" 2] by simp
  have z: "autoReconnect [ex_env_ok] (NewClient \<lparr>ID = None\<rparr> 255 16)
       = Some (NewClient \<lparr>ID = None\<rparr> 255 16, [])"
    using autoReconnect_behaviour[of "NewClient \<lparr>ID = None\<rparr> 255 16" "[ex_env_ok]"]
    by (simp add: NewClient_def)
  from a n e d z show ?thesis by blast
qed

section \<open>Properties of the handler queue\<close>

lemma unlockedDisconnect_keeps:
  "nodeHandlers (fst (unlockedDisconnect c)) = nodeHandlers c"
  "handlerQueue (fst (unlockedDisconnect c)) = handlerQueue c"
  by (simp_all add: unlockedDisconnect_def split: option.splits)

lemma Disconnect_keeps:
  "nodeHandlers (fst (Disconnect c)) = nodeHandlers c"
  "handlerQueue (fst (Disconnect c)) = handlerQueue c"
  by (simp_all add: Disconnect_def unlockedDisconnect_keeps)

lemma Connect_keeps:
  "nodeHandlers (fst (Connect env c)) = nodeHandlers c"
  "handlerQueue (fst (Connect env c)) = handlerQueue c"
  by (auto simp: Connect_def Let_def doHandshake_def resetExpectedDisconnect_def
      unlockedDisconnect_def split: option.splits sum.splits prod.splits)

lemma onDisconnect_keeps:
  "nodeHandlers (fst (onDisconnect ns remote c)) = nodeHandlers c"
  "handlerQueue (fst (onDisconnect ns remote c)) = handlerQueue c"
  by (simp_all add: onDisconnect_def Let_def clearResponseWaiters_def)

lemma reconnect515_keeps:
  "nodeHandlers (fst (reconnect515 env c)) = nodeHandlers c"
  "handlerQueue (fst (reconnect515 env c)) = handlerQueue c"
proof -
  have "fst (reconnect515 env c) = fst (Connect env (fst (Disconnect c)))"
    by (simp add: reconnect515_def split: prod.splits)
  then show "nodeHandlers (fst (reconnect515 env c)) = nodeHandlers c"
    and "handlerQueue (fst (reconnect515 env c)) = handlerQueue c"
    by (simp_all add: Connect_keeps Disconnect_keeps)
qed

lemma autoReconnect_loop_keeps:
  "autoReconnect_loop envs c = Some (c', es) \<Longrightarrow>
     nodeHandlers c' = nodeHandlers c \<and> handlerQueue c' = handlerQueue c"
proof (induction envs arbitrary: c c' es)
  case Nil
  then show ?case by simp
next
  case (Cons env envs)
  let ?c1 = "c\<lparr>AutoReconnectErrors := AutoReconnectErrors c + 1\<rparr>"
  obtain c2 err e2 where k: "Connect env ?c1 = (c2, err, e2)" by (cases "Connect env ?c1") auto
  then have "fst (Connect env ?c1) = c2" by simp
  with Connect_keeps[of env ?c1] have c2: "nodeHandlers c2 = nodeHandlers c" "handlerQueue c2 = handlerQueue c"
    by simp_all
  show ?case
  proof (cases "err = None \<or> (\<exists>e. err = Some e \<and> errors_Is e ErrAlreadyConnected)")
    case True
    with Cons.prems k have "c' = c2" by (auto simp: Let_def)
    with c2 show ?thesis by simp
  next
    case False
    then obtain e where e: "err = Some e" "\<not> errors_Is e ErrAlreadyConnected" by (cases err) auto
    with Cons.prems k obtain e3 where "autoReconnect_loop envs c2 = Some (c', e3)"
      by (auto simp: Let_def split: option.splits)
    from Cons.IH[OF this] c2 show ?thesis by simp
  qed
qed

lemma autoReconnect_keeps:
  "autoReconnect envs c = Some (c', es) \<Longrightarrow>
     nodeHandlers c' = nodeHandlers c \<and> handlerQueue c' = handlerQueue c"
  using autoReconnect_loop_keeps[of envs c c' es]
  by (auto simp: autoReconnect_def split: if_splits)

lemma Logout_keeps:
  "nodeHandlers (fst (Logout sendIQ del c)) = nodeHandlers c"
  "handlerQueue (fst (Logout sendIQ del c)) = handlerQueue c"
  by (auto simp: Logout_def Let_def Disconnect_def unlockedDisconnect_def Store_Delete_def
      split: option.splits prod.splits)

lemma AddEventHandler_keeps:
  "nodeHandlers (fst (snd (AddEventHandler f g c))) = nodeHandlers c"
  "handlerQueue (fst (snd (AddEventHandler f g c))) = handlerQueue c"
  by (simp_all add: AddEventHandler_def Let_def)

lemma RemoveEventHandler_keeps:
  "nodeHandlers (fst (RemoveEventHandler i c)) = nodeHandlers c"
  "handlerQueue (fst (RemoveEventHandler i c)) = handlerQueue c"
  by (simp_all add: RemoveEventHandler_def Let_def split: option.splits)

lemma generateRequestID_keeps:
  "nodeHandlers (fst (generateRequestID c)) = nodeHandlers c"
  "handlerQueue (fst (generateRequestID c)) = handlerQueue c"
  by (simp_all add: generateRequestID_def Let_def)

lemma call_nodeHandler_keeps:
  "nodeHandlers (fst (call_nodeHandler env h node c)) = nodeHandlers c"
  "handlerQueue (fst (call_nodeHandler env h node c)) = handlerQueue c"
  by (auto simp: call_nodeHandler_def handleStreamError_def handleConnectFailure_def
      handleConnectSuccess_def handleIB_def expectDisconnect_def Store_Delete_def Let_def
      split: nodeHandler.splits option.splits prod.splits)

lemma receiveResponse_keeps:
  "nodeHandlers (fst (receiveResponse node c)) = nodeHandlers c"
  "handlerQueue (fst (receiveResponse node c)) = handlerQueue c"
  by (auto simp: receiveResponse_def split: option.splits attr_value.splits)

lemma spawned_pushers_simps [simp]:
  "spawned_pushers [] = []"
  "spawned_pushers (es @ es') = spawned_pushers es @ spawned_pushers es'"
  "spawned_pushers (Logged l v m # es) = spawned_pushers es"
  "spawned_pushers (ChanSend w x # es) = spawned_pushers es"
  "spawned_pushers (Spawn (GoBlockingPush n) # es) = n # spawned_pushers es"
  by (simp_all add: spawned_pushers_def List.map_filter_def)

lemma receiveResponse_pushers: "spawned_pushers (snd (snd (receiveResponse node c))) = []"
  by (auto simp: receiveResponse_def split: option.splits attr_value.splits)

text \<open>The three things \<open>handleFrame\<close> can do to the client, the queue and the goroutines.\<close>

lemma handleFrame_cases:
  "nodeHandlers (fst (handleFrame U M data c)) = nodeHandlers c
   \<and> ((handlerQueue (fst (handleFrame U M data c)) = handlerQueue c
        \<and> spawned_pushers (snd (handleFrame U M data c)) = [])
      \<or> (\<exists>node. nodeHandlers c (Tag node) \<noteq> None
           \<and> handlerQueue (fst (handleFrame U M data c)) = handlerQueue c @ [node]
           \<and> spawned_pushers (snd (handleFrame U M data c)) = [])
      \<or> (\<exists>node. nodeHandlers c (Tag node) \<noteq> None
           \<and> handlerQueue (fst (handleFrame U M data c)) = handlerQueue c
           \<and> spawned_pushers (snd (handleFrame U M data c)) = [node]))"
proof (cases "U data")
  case (Inl e)
  then show ?thesis by (simp add: handleFrame_def)
next
  case (Inr d)
  show ?thesis
  proof (cases "M d")
    case (Inl e)
    with Inr show ?thesis by (simp add: handleFrame_def)
  next
    case node: (Inr node)
    obtain c1 b e1 where r: "receiveResponse node c = (c1, b, e1)"
      by (cases "receiveResponse node c") auto
    then have "fst (receiveResponse node c) = c1" "snd (snd (receiveResponse node c)) = e1"
      by simp_all
    with receiveResponse_keeps[of node c] receiveResponse_pushers[of node c]
    have k: "nodeHandlers c1 = nodeHandlers c" "handlerQueue c1 = handlerQueue c"
      "spawned_pushers e1 = []" by simp_all
    show ?thesis
    proof (cases "Tag node = ''xmlstreamend''")
      case True
      with Inr node show ?thesis by (simp add: handleFrame_def)
    next
      case tag: False
      show ?thesis
      proof (cases b)
        case True
        with Inr node r k tag show ?thesis by (simp add: handleFrame_def)
      next
        case False
        show ?thesis
        proof (cases "nodeHandlers c (Tag node) = None")
          case True
          with Inr node r k tag False show ?thesis by (simp add: handleFrame_def)
        next
          case h: False
          show ?thesis
          proof (cases "length (handlerQueue c) < handlerQueueSize")
            case True
            with Inr node r k tag False h have
              "nodeHandlers (fst (handleFrame U M data c)) = nodeHandlers c"
              "handlerQueue (fst (handleFrame U M data c)) = handlerQueue c @ [node]"
              "spawned_pushers (snd (handleFrame U M data c)) = []"
              by (simp_all add: handleFrame_def)
            with h show ?thesis by blast
          next
            case full: False
            with Inr node r k tag False h have
              "nodeHandlers (fst (handleFrame U M data c)) = nodeHandlers c"
              "handlerQueue (fst (handleFrame U M data c)) = handlerQueue c"
              "spawned_pushers (snd (handleFrame U M data c)) = [node]"
              by (simp_all add: handleFrame_def)
            with h show ?thesis by blast
          qed
        qed
      qed
    qed
  qed
qed


lemma handlerQueueLoop_step_bound:
  assumes "\<forall>n\<in>set (handlerQueue c). nodeHandlers c (Tag n) \<noteq> None"
  shows "\<exists>c' es. handlerQueueLoop_step env c = Returned (c', es)
           \<and> nodeHandlers c' = nodeHandlers c
           \<and> set (handlerQueue c') \<subseteq> set (handlerQueue c)"
proof (cases "handlerQueue c")
  case Nil
  then show ?thesis by (simp add: handlerQueueLoop_step_def)
next
  case (Cons node rest)
  with assms obtain h where h: "nodeHandlers c (Tag node) = Some h" by auto
  obtain c' es where r: "call_nodeHandler env h node (c\<lparr>handlerQueue := rest\<rparr>) = (c', es)"
    by (cases "call_nodeHandler env h node (c\<lparr>handlerQueue := rest\<rparr>)") auto
  then have "fst (call_nodeHandler env h node (c\<lparr>handlerQueue := rest\<rparr>)) = c'" by simp
  with call_nodeHandler_keeps[of env h node "c\<lparr>handlerQueue := rest\<rparr>"]
  have k: "nodeHandlers c' = nodeHandlers c" "handlerQueue c' = rest" by simp_all
  from Cons h r have "handlerQueueLoop_step env c = Returned (c', es)"
    by (simp add: handlerQueueLoop_step_def)
  with k Cons show ?thesis by auto
qed

lemma sys_step_bound:
  assumes "queue_tags_bound H s"
  shows "\<exists>s'. sys_step U M a s = Some s' \<and> queue_tags_bound H s'"
proof -
  from assms have H: "nodeHandlers (cli s) = H"
    and q: "\<forall>n\<in>set (handlerQueue (cli s)). H (Tag n) \<noteq> None"
    and p: "\<forall>n\<in>set (pushers s). H (Tag n) \<noteq> None"
    by (simp_all add: queue_tags_bound_def)
  have keep: "\<And>c. nodeHandlers c = nodeHandlers (cli s) \<Longrightarrow> handlerQueue c = handlerQueue (cli s)
                \<Longrightarrow> queue_tags_bound H (s\<lparr>cli := c\<rparr>)"
    using H q p by (simp add: queue_tags_bound_def)
  show ?thesis
  proof (cases a)
    case (Frame data)
    obtain c es where f: "handleFrame U M data (cli s) = (c, es)"
      by (cases "handleFrame U M data (cli s)") auto
    then have fs: "fst (handleFrame U M data (cli s)) = c" "snd (handleFrame U M data (cli s)) = es"
      by simp_all
    from handleFrame_cases[of U M data "cli s"] fs H q p
    have "queue_tags_bound H (s\<lparr>cli := c, pushers := pushers s @ spawned_pushers es\<rparr>)"
      by (auto simp: queue_tags_bound_def)
    with Frame f show ?thesis by (simp add: sys_step_def)
  next
    case (Worker env)
    from q H have "\<forall>n\<in>set (handlerQueue (cli s)). nodeHandlers (cli s) (Tag n) \<noteq> None" by simp
    from handlerQueueLoop_step_bound[OF this, of env] obtain c' es where
      r: "handlerQueueLoop_step env (cli s) = Returned (c', es)"
         "nodeHandlers c' = nodeHandlers (cli s)"
         "set (handlerQueue c') \<subseteq> set (handlerQueue (cli s))" by blast
    with H q p have "queue_tags_bound H (s\<lparr>cli := c'\<rparr>)"
      by (auto simp: queue_tags_bound_def)
    with Worker r(1) show ?thesis by (simp add: sys_step_def)
  next
    case (Pusher k)
    show ?thesis
    proof (cases "k < length (pushers s) \<and> length (handlerQueue (cli s)) < handlerQueueSize")
      case True
      then have n: "pushers s ! k \<in> set (pushers s)" by simp
      have sub: "set (take k (pushers s) @ drop (Suc k) (pushers s)) \<subseteq> set (pushers s)"
        using set_take_subset[of k "pushers s"] set_drop_subset[of "Suc k" "pushers s"] by auto
      have "queue_tags_bound H
              (s\<lparr>cli := (cli s)\<lparr>handlerQueue := handlerQueue (cli s) @ [pushers s ! k]\<rparr>,
                 pushers := take k (pushers s) @ drop (Suc k) (pushers s)\<rparr>)"
        using H q p n sub by (auto simp: queue_tags_bound_def)
      with Pusher True show ?thesis by (simp add: sys_step_def blocking_push_def)
    next
      case False
      with Pusher assms show ?thesis by (auto simp: sys_step_def blocking_push_def)
    qed
  next
    case (DoConnect env)
    with keep[OF Connect_keeps] show ?thesis by (simp add: sys_step_def)
  next
    case DoDisconnect
    with keep[OF Disconnect_keeps] show ?thesis by (simp add: sys_step_def)
  next
    case (SocketClosed ns remote)
    with keep[OF onDisconnect_keeps] show ?thesis by (simp add: sys_step_def)
  next
    case (DoAutoReconnect envs)
    show ?thesis
    proof (cases "autoReconnect envs (cli s)")
      case None
      with DoAutoReconnect assms show ?thesis by (simp add: sys_step_def)
    next
      case (Some r)
      then obtain c es where r: "autoReconnect envs (cli s) = Some (c, es)" by (cases r) auto
      from autoReconnect_keeps[OF r] keep have "queue_tags_bound H (s\<lparr>cli := c\<rparr>)" by simp
      with DoAutoReconnect r show ?thesis by (simp add: sys_step_def)
    qed
  next
    case (DoReconnect515 env)
    with keep[OF reconnect515_keeps] show ?thesis by (simp add: sys_step_def)
  next
    case (DoLogout answer del)
    with keep[OF Logout_keeps] show ?thesis by (simp add: sys_step_def)
  next
    case (DoAddEventHandler f)
    obtain g c i where a: "AddEventHandler f (nextHandlerID s) (cli s) = (g, c, i)"
      by (cases "AddEventHandler f (nextHandlerID s) (cli s)") auto
    then have "fst (snd (AddEventHandler f (nextHandlerID s) (cli s))) = c" by simp
    with AddEventHandler_keeps[of f "nextHandlerID s" "cli s"] H q p
    have "queue_tags_bound H (s\<lparr>cli := c, nextHandlerID := g\<rparr>)"
      by (simp add: queue_tags_bound_def)
    with DoAddEventHandler a show ?thesis by (simp add: sys_step_def)
  next
    case (DoRemoveEventHandler i)
    with keep[OF RemoveEventHandler_keeps] show ?thesis by (simp add: sys_step_def)
  next
    case DoRemoveEventHandlers
    with keep[of "RemoveEventHandlers (cli s)"] show ?thesis
      by (simp add: sys_step_def RemoveEventHandlers_def)
  next
    case DoGenerateRequestID
    with keep[OF generateRequestID_keeps] show ?thesis by (simp add: sys_step_def)
  qed
qed

lemma run_bound:
  "queue_tags_bound H s \<Longrightarrow> \<exists>s'. run U M acts s = Some s' \<and> queue_tags_bound H s'"
proof (induction acts arbitrary: s)
  case Nil
  then show ?case by simp
next
  case (Cons a acts)
  from sys_step_bound[OF Cons.prems, of U M a] obtain s1 where
    s1: "sys_step U M a s = Some s1" "queue_tags_bound H s1" by blast
  from Cons.IH[OF s1(2)] s1(1) show ?case by simp
qed

lemma NewClient_dom:
  "dom (nodeHandlers (NewClient d b0 b1)) =
     {''message'', ''receipt'', ''chatstate'', ''notification'', ''success'', ''failure'',
      ''stream:error'', ''iq'', ''ib''}"
  by (simp add: NewClient_def insert_commute)

lemma start_bound:
  "queue_tags_bound (nodeHandlers (NewClient d b0 b1)) (start d b0 b1 g)"
  by (simp add: queue_tags_bound_def start_def NewClient_def)

text \<open>
  Claim C9. From a new client, whatever frames arrive and however the operations of the
  session, the worker and the blocked pushers are interleaved, the run never ends in a
  panic of the worker: the handler table stays the one bound in \<open>NewClient\<close>, every node in
  the handler queue and every node held by a blocked pusher has a tag bound in it, and so
  the worker's next lookup gives a handler. The table itself binds exactly the nine core
  tags. (Handlers whose bodies are not among the sources are taken not to touch the table
  or the queue.)
\<close>

theorem worker_lookup_never_nil:
  "\<exists>s. run U M acts (start d b0 b1 g) = Some s
       \<and> nodeHandlers (cli s) = nodeHandlers (NewClient d b0 b1)
       \<and> dom (nodeHandlers (cli s)) =
           {''message'', ''receipt'', ''chatstate'', ''notification'', ''success'', ''failure'',
            ''stream:error'', ''iq'', ''ib''}
       \<and> (\<forall>n\<in>set (handlerQueue (cli s)) \<union> set (pushers s). nodeHandlers (cli s) (Tag n) \<noteq> None)
       \<and> (\<forall>env. \<exists>r. handlerQueueLoop_step env (cli s) = Returned r)"
proof -
  from run_bound[OF start_bound, of U M acts d b0 b1 g] obtain s where
    s: "run U M acts (start d b0 b1 g) = Some s"
       "queue_tags_bound (nodeHandlers (NewClient d b0 b1)) s" by blast
  then have H: "nodeHandlers (cli s) = nodeHandlers (NewClient d b0 b1)"
    and q: "\<forall>n\<in>set (handlerQueue (cli s)). nodeHandlers (cli s) (Tag n) \<noteq> None"
    and p: "\<forall>n\<in>set (pushers s). nodeHandlers (cli s) (Tag n) \<noteq> None"
    by (simp_all add: queue_tags_bound_def)
  have d: "dom (nodeHandlers (cli s)) =
           {''message'', ''receipt'', ''chatstate'', ''notification'', ''success'', ''failure'',
            ''stream:error'', ''iq'', ''ib''}"
    by (simp only: H NewClient_dom)
  have w: "\<forall>env. \<exists>r. handlerQueueLoop_step env (cli s) = Returned r"
  proof
    fix env
    from handlerQueueLoop_step_bound[OF q, of env] obtain c' es where
      "handlerQueueLoop_step env (cli s) = Returned (c', es)" by blast
    then show "\<exists>r. handlerQueueLoop_step env (cli s) = Returned r" by (rule exI)
  qed
  have qp: "\<forall>n\<in>set (handlerQueue (cli s)) \<union> set (pushers s). nodeHandlers (cli s) (Tag n) \<noteq> None"
    using q p by blast
  show ?thesis
    by (rule exI[of _ s]) (intro conjI s(1) H d qp w)
qed


theorem worker_lookup_never_nil_witness:
  "run ex_Unpack ex_Unmarshal [Frame [2]] (start \<lparr>ID = None\<rparr> 255 16 0) =
     Some \<lparr>cli = (NewClient \<lparr>ID = None\<rparr> 255 16)\<lparr>handlerQueue := [ex_message]\<rparr>,
           pushers = [], nextHandlerID = 0\<rparr>
   \<and> nodeHandlers (NewClient \<lparr>ID = None\<rparr> 255 16) (Tag ex_message) = Some HandleEncryptedMessage
   \<and> run ex_Unpack ex_Unmarshal [Frame [2], Worker ex_handler_env] (start \<lparr>ID = None\<rparr> 255 16 0) =
       Some \<lparr>cli = NewClient \<lparr>ID = None\<rparr> 255 16, pushers = [], nextHandlerID = 0\<rparr>
   \<and> run ex_Unpack ex_Unmarshal [Frame [3], Worker ex_handler_env, Pusher 0]
         (start \<lparr>ID = None\<rparr> 255 16 0) \<noteq> None"
proof -
  have f: "handleFrame ex_Unpack ex_Unmarshal [2] (NewClient \<lparr>ID = None\<rparr> 255 16) =
             ((NewClient \<lparr>ID = None\<rparr> 255 16)\<lparr>handlerQueue := [ex_message]\<rparr>,
              [Logged RecvLog LDebug ''%s''])"
    by (simp add: handleFrame_def receiveResponse_def ex_Unpack_def ex_Unmarshal_def
        ex_message_def NewClient_def handlerQueueSize_def)
  have 1: "run ex_Unpack ex_Unmarshal [Frame [2]] (start \<lparr>ID = None\<rparr> 255 16 0) =
     Some \<lparr>cli = (NewClient \<lparr>ID = None\<rparr> 255 16)\<lparr>handlerQueue := [ex_message]\<rparr>,
           pushers = [], nextHandlerID = 0\<rparr>"
    by (simp add: sys_step_def start_def f spawned_pushers_def List.map_filter_simps)
  have 2: "nodeHandlers (NewClient \<lparr>ID = None\<rparr> 255 16) (Tag ex_message) = Some HandleEncryptedMessage"
    by (simp add: NewClient_def ex_message_def)
  have w: "handlerQueueLoop_step ex_handler_env
             ((NewClient \<lparr>ID = None\<rparr> 255 16)\<lparr>handlerQueue := [ex_message]\<rparr>) =
           Returned (NewClient \<lparr>ID = None\<rparr> 255 16,
                     [CallNodeHandler HandleEncryptedMessage ex_message])"
    by (simp add: handlerQueueLoop_step_def call_nodeHandler_def NewClient_def ex_message_def)
  have 3: "run ex_Unpack ex_Unmarshal [Frame [2], Worker ex_handler_env] (start \<lparr>ID = None\<rparr> 255 16 0) =
       Some \<lparr>cli = NewClient \<lparr>ID = None\<rparr> 255 16, pushers = [], nextHandlerID = 0\<rparr>"
    by (simp add: sys_step_def start_def f w spawned_pushers_def List.map_filter_simps)
  have 4: "run ex_Unpack ex_Unmarshal [Frame [3], Worker ex_handler_env, Pusher 0]
         (start \<lparr>ID = None\<rparr> 255 16 0) \<noteq> None"
    using worker_lookup_never_nil[of ex_Unpack ex_Unmarshal
        "[Frame [3], Worker ex_handler_env, Pusher 0]" "\<lparr>ID = None\<rparr>" 255 16 0]
    by auto
  from 1 2 3 4 show ?thesis by blast
qed

end
